theory Spec2Isabelle
  imports Complex_Main
begin

section \<open>Parameter checks (simul.h)\<close>

text \<open>
  The two templates \<open>notPositive\<close> and \<open>notStrPositive\<close> return a flag and may write one
  line to the error stream. The model returns the flag together with the lines written.
  The template parameter is any ordered type with a zero (\<open>T(0)\<close>).
\<close>

definition notPositive :: "'a::{zero,linorder} \<Rightarrow> string \<Rightarrow> bool \<times> string list" where
  "notPositive a name =
     (if a < 0 then (True, [''Error: '' @ name @ '' should be positive.''])
      else (False, []))"

definition notStrPositive :: "'a::{zero,linorder} \<Rightarrow> string \<Rightarrow> bool \<times> string list" where
  "notStrPositive a name =
     (if a \<le> 0 then (True, [''Error: '' @ name @ '' should be strictly positive.''])
      else (False, []))"

section \<open>Numbers and arrays\<close>

text \<open>
  The simulation computes on \<open>double\<close>. The model computes on the real numbers: it is the
  exact arithmetic that the floating-point code approximates, so a statement proved here
  is the statement "up to floating-point error" of the program. Indices and counts
  (\<open>long\<close>) are natural numbers, a \<open>std::vector<double>\<close> is a list of reals, and the pair
  \<open>positions[0]\<close>, \<open>positions[1]\<close> (likewise \<open>forces\<close>) is a pair of fields.
\<close>

type_synonym vec = "real list"

section \<open>Periodic wrapping (state.h)\<close>

text \<open>
  Modelled from the spec: \<open>pbc\<close>, declared in state.h, which is not among the sources.
  The spec calls it the canonical non-negative-result modulo: \<open>x \<leftarrow> x mod L\<close>.
\<close>

definition pbc :: "real \<Rightarrow> real \<Rightarrow> real" where
  "pbc x L = x - L * of_int \<lfloor>x / L\<rfloor>"

text \<open>
  Modelled from the spec: \<open>pbcSym\<close>, declared in state.h, which is not among the sources.
  The spec calls it the centered wrap: each component is wrapped into \<open>[-L/2, L/2)\<close>.
\<close>

definition pbcSym :: "real \<Rightarrow> real \<Rightarrow> real" where
  "pbcSym x L = x - L * of_int \<lfloor>x / L + 1 / 2\<rfloor>"

section \<open>The spatial index (class Boxes)\<close>

text \<open>
  Modelled from the spec: the class \<open>Boxes\<close>, whose files are not among the sources.
  It is a uniform grid of \<open>n_boxes_x \<times> n_boxes_x\<close> cells of side \<open>len_box\<close>; every
  cell owns the ordered list of the particles inside it (\<open>parts_of_box\<close>), rebuilt by
  \<open>update\<close>, and a list of neighbour cells (\<open>nbrs_pos\<close>) computed once by the constructor.
  The cell of a particle is \<open>(floor (x / len_box), floor (y / len_box))\<close> reduced modulo the
  grid dimension. The neighbour table is left as a field: the theorems below quantify
  over it or name the table they use.
\<close>

record Boxes =
  n_boxes_x :: nat
  len_box :: real
  nbrs_pos :: "nat list list"
  parts_of_box :: "nat list list"

text \<open>Modelled from the spec: \<open>cellCount\<close>, the total number of cells.\<close>

definition getNBoxes :: "Boxes \<Rightarrow> nat" where
  "getNBoxes b = n_boxes_x b * n_boxes_x b"

text \<open>
  Modelled from the spec: the integer cell coordinate \<open>floor (x / cellsize)\<close> of a position,
  reduced modulo the grid dimension.
\<close>

definition box_coord :: "Boxes \<Rightarrow> real \<Rightarrow> nat" where
  "box_coord b x = nat (\<lfloor>x / len_box b\<rfloor> mod int (n_boxes_x b))"

text \<open>
  Modelled from the spec: the index of the cell of a position. The spec does not fix the
  raster order; here the x coordinate runs fastest.
\<close>

definition box_of :: "Boxes \<Rightarrow> real \<Rightarrow> real \<Rightarrow> nat" where
  "box_of b x y = box_coord b x + box_coord b y * n_boxes_x b"

text \<open>
  Modelled from the spec: \<open>build(positions)\<close>, which partitions all particles into cells,
  each cell holding its particles in increasing order of index.
\<close>

definition update :: "Boxes \<Rightarrow> vec \<Rightarrow> vec \<Rightarrow> Boxes" where
  "update b xs ys =
     b\<lparr>parts_of_box :=
         map (\<lambda>c. filter (\<lambda>i. box_of b (xs ! i) (ys ! i) = c) [0..<length xs])
             [0..<getNBoxes b]\<rparr>"

text \<open>
  Modelled from the spec: the neighbour table built by the constructor of \<open>Boxes\<close>, which
  is not among the sources. The spec describes a half stencil: the cell itself and the
  cells one step away in the periodic directions, of which one half is listed (here right,
  up, up-right and up-left), so that of two adjacent cells exactly one lists the other.
\<close>

definition half_stencil :: "nat \<Rightarrow> nat \<Rightarrow> nat list" where
  "half_stencil n c =
     (let cx = c mod n; cy = c div n;
          xr = (cx + 1) mod n; xl = (cx + n - 1) mod n; yu = (cy + 1) mod n
      in [c, xr + cy * n, cx + yu * n, xr + yu * n, xl + yu * n])"

text \<open>
  Modelled from the spec: a constructed index of \<open>n \<times> n\<close> cells of side \<open>l\<close>, with that
  neighbour table and no particle assigned yet.
\<close>

definition new_Boxes :: "nat \<Rightarrow> real \<Rightarrow> Boxes" where
  "new_Boxes n l =
     \<lparr>n_boxes_x = n, len_box = l, nbrs_pos = map (half_stencil n) [0..<n * n],
      parts_of_box = replicate (n * n) []\<rparr>"

section \<open>The random stream\<close>

text \<open>
  The generator (\<open>std::mt19937\<close> with its distributions, or the VSL stream of the MKL
  build) belongs to the environment. It is modelled as the sequence of standardised
  variates it is going to return and the number of variates drawn so far: a uniform draw
  on \<open>[a, b)\<close> scales a variate of \<open>[0, 1)\<close>, a Gaussian draw of mean \<open>a\<close> and standard
  deviation \<open>\<sigma>\<close> scales a standard normal variate. Every draw consumes one variate, so
  two draws are the same sample exactly when they read the same index.
\<close>

record Rng =
  variate :: "nat \<Rightarrow> real"
  drawn :: nat

definition gaussian_draw :: "real \<Rightarrow> real \<Rightarrow> Rng \<Rightarrow> real \<times> Rng" where
  "gaussian_draw a sigma g = (a + sigma * variate g (drawn g), g\<lparr>drawn := Suc (drawn g)\<rparr>)"

text \<open>The batched draws of the MKL build fill the first \<open>n\<close> entries of an array.\<close>

definition vdRngUniform :: "Rng \<Rightarrow> nat \<Rightarrow> vec \<Rightarrow> real \<Rightarrow> real \<Rightarrow> vec \<times> Rng" where
  "vdRngUniform g n r a b =
     (map (\<lambda>k. a + (b - a) * variate g (drawn g + k)) [0..<n] @ drop n r,
      g\<lparr>drawn := drawn g + n\<rparr>)"

definition vdRngGaussian :: "Rng \<Rightarrow> nat \<Rightarrow> vec \<Rightarrow> real \<Rightarrow> real \<Rightarrow> vec \<times> Rng" where
  "vdRngGaussian g n r a sigma =
     (map (\<lambda>k. a + sigma * variate g (drawn g + k)) [0..<n] @ drop n r,
      g\<lparr>drawn := drawn g + n\<rparr>)"

section \<open>Vector primitives of the MKL build\<close>

definition vdSinCos :: "nat \<Rightarrow> vec \<Rightarrow> vec \<Rightarrow> vec \<Rightarrow> vec \<times> vec" where
  "vdSinCos n a y z = (map sin (take n a) @ drop n y, map cos (take n a) @ drop n z)"

definition cblas_dscal :: "nat \<Rightarrow> real \<Rightarrow> vec \<Rightarrow> vec" where
  "cblas_dscal n alpha x = map (\<lambda>v. alpha * v) (take n x) @ drop n x"

definition vdAdd :: "nat \<Rightarrow> vec \<Rightarrow> vec \<Rightarrow> vec \<Rightarrow> vec" where
  "vdAdd n a b y = map2 (+) (take n a) (take n b) @ drop n y"

section \<open>The state (state.cpp)\<close>

record State =
  len :: real
  n_parts :: nat
  pot_strength :: real
  activity :: real
  dt :: real
  boxes :: Boxes
  positions0 :: vec
  positions1 :: vec
  angles :: vec
  forces0 :: vec
  forces1 :: vec

text \<open>The build without MKL owns a generator and two normal distributions (mean, deviation).\<close>

record State_std = State +
  rng :: Rng
  noiseTemp :: "real \<times> real"
  noiseAngle :: "real \<times> real"

text \<open>The MKL build owns a stream and the two standard deviations.\<close>

record State_mkl = State +
  stream :: Rng
  stddev_temp :: real
  stddev_rot :: real

text \<open>First version of state.cpp: work arrays \<open>aux_x\<close>, \<open>aux_y\<close>, \<open>aux_angle\<close>.\<close>

record State_mkl1 = State_mkl +
  aux_x :: vec
  aux_y :: vec
  aux_angle :: vec

text \<open>Second version of state.cpp: noise arrays \<open>ran_num_x\<close>, \<open>ran_num_y\<close>, \<open>ran_num_angle\<close>.\<close>

record State_mkl2 = State_mkl +
  ran_num_x :: vec
  ran_num_y :: vec
  ran_num_angle :: vec

subsection \<open>Forces\<close>

text \<open>
  The body of the innermost loop of \<open>calcInternalForces\<close>, on the pair of force arrays.
\<close>

definition pair_step :: "real \<Rightarrow> real \<Rightarrow> vec \<Rightarrow> vec \<Rightarrow> nat \<Rightarrow> nat \<Rightarrow> vec \<times> vec \<Rightarrow> vec \<times> vec" where
  "pair_step L k xs ys i j F =
     (let dx = pbcSym (xs ! i - xs ! j) L;
          dy = pbcSym (ys ! i - ys ! j) L;
          dr2 = dx * dx + dy * dy
      in if dr2 * (1 - dr2) > 0 then
           (let u = k * (1 / sqrt dr2 - 1);
                fx = u * dx;
                fy = u * dy;
                f0 = (fst F)[i := fst F ! i + fx];
                f0 = f0[j := f0 ! j - fx];
                f1 = (snd F)[i := snd F ! i + fy];
                f1 = f1[j := f1 ! j - fy]
            in (f0, f1))
         else F)"

text \<open>The four nested loops over cells, neighbour cells and their particles.\<close>

definition cell_loops :: "real \<Rightarrow> real \<Rightarrow> vec \<Rightarrow> vec \<Rightarrow> Boxes \<Rightarrow> vec \<times> vec \<Rightarrow> vec \<times> vec" where
  "cell_loops L k xs ys b F =
     fold (\<lambda>b1. fold (\<lambda>b2. fold (\<lambda>i. fold (\<lambda>j. pair_step L k xs ys i j)
                                          (parts_of_box b ! b2))
                              (parts_of_box b ! b1))
                    (nbrs_pos b ! b1))
          [0..<getNBoxes b] F"

definition calcInternalForces :: "'a State_scheme \<Rightarrow> 'a State_scheme" where
  "calcInternalForces s =
     (let z0 = fold (\<lambda>i f. f[i := 0]) [0..<n_parts s] (forces0 s);
          z1 = fold (\<lambda>i f. f[i := 0]) [0..<n_parts s] (forces1 s);
          b = update (boxes s) (positions0 s) (positions1 s);
          F = cell_loops (len s) (pot_strength s) (positions0 s) (positions1 s) b (z0, z1)
      in s\<lparr>boxes := b, forces0 := fst F, forces1 := snd F\<rparr>)"

text \<open>
  The reference of the pair-counting property, in the spec's words: a scan over all
  unordered pairs \<open>{i, j}\<close>, \<open>i \<noteq> j\<close>, with the minimum-image displacement and the same pair
  force law, starting from zero forces.
\<close>

definition brute_forces :: "real \<Rightarrow> real \<Rightarrow> vec \<Rightarrow> vec \<Rightarrow> nat \<Rightarrow> vec \<times> vec" where
  "brute_forces L k xs ys n =
     fold (\<lambda>i. fold (\<lambda>j. pair_step L k xs ys i j) [0..<i]) [0..<n]
          (replicate n 0, replicate n 0)"

subsection \<open>Periodic boundary conditions\<close>

definition enforcePBC_body :: "nat \<Rightarrow> 'a State_scheme \<Rightarrow> 'a State_scheme" where
  "enforcePBC_body i s =
     s\<lparr>positions0 := (positions0 s)[i := pbc (positions0 s ! i) (len s)],
       positions1 := (positions1 s)[i := pbc (positions1 s ! i) (len s)],
       angles := (angles s)[i := pbc (angles s ! i) (2 * pi)]\<rparr>"

definition enforcePBC :: "'a State_scheme \<Rightarrow> 'a State_scheme" where
  "enforcePBC s = fold enforcePBC_body [0..<n_parts s] s"

subsection \<open>One time step\<close>

text \<open>The loop body of \<open>evolve\<close> in the build without MKL (both versions of state.cpp).\<close>

definition evolve_body_std :: "nat \<Rightarrow> State_std \<Rightarrow> State_std" where
  "evolve_body_std i s =
     (let s' = sin (angles s ! i);
          c = cos (angles s ! i);
          p0 = (positions0 s)[i := positions0 s ! i + dt s * (forces0 s ! i + activity s * c)];
          p1 = (positions1 s)[i := positions1 s ! i + dt s * (forces1 s ! i + activity s * s')];
          (xi_x, g1) = gaussian_draw (fst (noiseTemp s)) (snd (noiseTemp s)) (rng s);
          p0 = p0[i := p0 ! i + xi_x];
          (xi_y, g2) = gaussian_draw (fst (noiseTemp s)) (snd (noiseTemp s)) g1;
          p1 = p1[i := p1 ! i + xi_y];
          (eta, g3) = gaussian_draw (fst (noiseAngle s)) (snd (noiseAngle s)) g2
      in s\<lparr>positions0 := p0, positions1 := p1,
            angles := (angles s)[i := angles s ! i + eta], rng := g3\<rparr>)"

definition step_std :: "State_std \<Rightarrow> State_std" where
  "step_std s = (let s1 = calcInternalForces s in fold evolve_body_std [0..<n_parts s1] s1)"

definition evolve_std :: "State_std \<Rightarrow> State_std" where
  "evolve_std s = enforcePBC (step_std s)"

text \<open>\<open>evolve\<close> in the MKL build of the first version of state.cpp, call by call.\<close>

definition step_mkl1 :: "State_mkl1 \<Rightarrow> State_mkl1" where
  "step_mkl1 s0 =
     (let s = calcInternalForces s0;
          n = n_parts s;
          (ay, ax) = vdSinCos n (angles s) (aux_y s) (aux_x s);
          ax = cblas_dscal n (activity s) ax;
          ay = cblas_dscal n (activity s) ay;
          ax = vdAdd n ax (forces0 s) ax;
          ay = vdAdd n ay (forces1 s) ay;
          ax = cblas_dscal n (dt s) ax;
          ay = cblas_dscal n (dt s) ay;
          p0 = vdAdd n (positions0 s) ax (positions0 s);
          p1 = vdAdd n (positions1 s) ay (positions1 s);
          (ax, g1) = vdRngGaussian (stream s) n ax 0 (stddev_temp s);
          (ay, g2) = vdRngGaussian g1 n ay 0 (stddev_temp s);
          (aa, g3) = vdRngGaussian g2 n (aux_angle s) 0 (stddev_rot s);
          p0 = vdAdd n p0 ax p0;
          p1 = vdAdd n p1 ay p1;
          an = vdAdd n (angles s) ax (angles s)
      in s\<lparr>positions0 := p0, positions1 := p1, angles := an, stream := g3,
            aux_x := ax, aux_y := ay, aux_angle := aa\<rparr>)"

definition evolve_mkl1 :: "State_mkl1 \<Rightarrow> State_mkl1" where
  "evolve_mkl1 s = enforcePBC (step_mkl1 s)"

text \<open>\<open>evolve\<close> in the MKL build of the second version of state.cpp.\<close>

definition evolve_body_mkl2 :: "nat \<Rightarrow> State_mkl2 \<Rightarrow> State_mkl2" where
  "evolve_body_mkl2 i s =
     (let s' = sin (angles s ! i);
          c = cos (angles s ! i);
          p0 = (positions0 s)[i := positions0 s ! i + dt s * (forces0 s ! i + activity s * c)];
          p1 = (positions1 s)[i := positions1 s ! i + dt s * (forces1 s ! i + activity s * s')];
          p0 = p0[i := p0 ! i + ran_num_x s ! i];
          p1 = p1[i := p1 ! i + ran_num_y s ! i]
      in s\<lparr>positions0 := p0, positions1 := p1,
            angles := (angles s)[i := angles s ! i + ran_num_angle s ! i]\<rparr>)"

definition step_mkl2 :: "State_mkl2 \<Rightarrow> State_mkl2" where
  "step_mkl2 s0 =
     (let s = calcInternalForces s0;
          (rx, g1) = vdRngGaussian (stream s) (n_parts s) (ran_num_x s) 0 (stddev_temp s);
          (ry, g2) = vdRngGaussian g1 (n_parts s) (ran_num_y s) 0 (stddev_temp s);
          (ra, g3) = vdRngGaussian g2 (n_parts s) (ran_num_angle s) 0 (stddev_rot s);
          s1 = s\<lparr>stream := g3, ran_num_x := rx, ran_num_y := ry, ran_num_angle := ra\<rparr>
      in fold evolve_body_mkl2 [0..<n_parts s1] s1)"

definition evolve_mkl2 :: "State_mkl2 \<Rightarrow> State_mkl2" where
  "evolve_mkl2 s = enforcePBC (step_mkl2 s)"

subsection \<open>Construction\<close>

text \<open>
  The constructor takes the seven physical parameters only. The spatial index
  \<open>Boxes(_len, _n_parts)\<close> comes from the absent class, and the generator is seeded with
  the reading of the system clock: both are inputs of the model, the second as the
  environment's seeding function \<open>new_stream\<close> applied to the clock reading \<open>now\<close>.
  \<open>resize\<close> value-initialises, so a resized array holds zeros. The two versions of the
  file differ in the array that receives the third batch of uniform draws. The constructor
  of the build without MKL is not modelled: its loop assigns a number to \<open>forces[i]\<close>, an
  array of \<open>double\<close>, which has no meaning for the type the rest of the file uses.
\<close>

definition new_State_mkl1 ::
  "real \<Rightarrow> nat \<Rightarrow> real \<Rightarrow> real \<Rightarrow> real \<Rightarrow> real \<Rightarrow> real \<Rightarrow> Boxes \<Rightarrow> (int \<Rightarrow> Rng) \<Rightarrow> int \<Rightarrow> State_mkl1" where
  "new_State_mkl1 l n k T rot_dif v0 h bx new_stream now =
     (let g0 = new_stream now;
          (p0, g1) = vdRngUniform g0 n (replicate n 0) 0 l;
          (p1, g2) = vdRngUniform g1 n (replicate n 0) 0 l;
          (an, g3) = vdRngUniform g2 n (replicate n 0) 0 (2 * pi)
      in \<lparr>len = l, n_parts = n, pot_strength = k, activity = v0, dt = h, boxes = bx,
          positions0 = p0, positions1 = p1, angles = an,
          forces0 = replicate n 0, forces1 = replicate n 0,
          stream = g3, stddev_temp = sqrt (2 * T * h), stddev_rot = sqrt (2 * rot_dif * h),
          aux_x = replicate n 0, aux_y = replicate n 0, aux_angle = replicate n 0\<rparr>)"

definition new_State_mkl2 ::
  "real \<Rightarrow> nat \<Rightarrow> real \<Rightarrow> real \<Rightarrow> real \<Rightarrow> real \<Rightarrow> real \<Rightarrow> Boxes \<Rightarrow> (int \<Rightarrow> Rng) \<Rightarrow> int \<Rightarrow> State_mkl2" where
  "new_State_mkl2 l n k T rot_dif v0 h bx new_stream now =
     (let g0 = new_stream now;
          (p0, g1) = vdRngUniform g0 n (replicate n 0) 0 l;
          (p1, g2) = vdRngUniform g1 n (replicate n 0) 0 l;
          (ra, g3) = vdRngUniform g2 n (replicate n 0) 0 (2 * pi)
      in \<lparr>len = l, n_parts = n, pot_strength = k, activity = v0, dt = h, boxes = bx,
          positions0 = p0, positions1 = p1, angles = replicate n 0,
          forces0 = replicate n 0, forces1 = replicate n 0,
          stream = g3, stddev_temp = sqrt (2 * T * h), stddev_rot = sqrt (2 * rot_dif * h),
          ran_num_x = replicate n 0, ran_num_y = replicate n 0, ran_num_angle = ra\<rparr>)"

section \<open>Predicates of the statements\<close>

text \<open>All arrays have been sized to \<open>n_parts\<close>, as the constructor leaves them.\<close>

definition sized :: "'a State_scheme \<Rightarrow> bool" where
  "sized s \<longleftrightarrow> length (positions0 s) = n_parts s \<and> length (positions1 s) = n_parts s \<and>
     length (angles s) = n_parts s \<and> length (forces0 s) = n_parts s \<and>
     length (forces1 s) = n_parts s"

definition sized_mkl1 :: "State_mkl1 \<Rightarrow> bool" where
  "sized_mkl1 s \<longleftrightarrow> sized s \<and> length (aux_x s) = n_parts s \<and> length (aux_y s) = n_parts s \<and>
     length (aux_angle s) = n_parts s"

definition sized_mkl2 :: "State_mkl2 \<Rightarrow> bool" where
  "sized_mkl2 s \<longleftrightarrow> sized s \<and> length (ran_num_x s) = n_parts s \<and>
     length (ran_num_y s) = n_parts s \<and> length (ran_num_angle s) = n_parts s"

text \<open>The periodicity invariant of the stored state.\<close>

definition wrapped :: "'a State_scheme \<Rightarrow> bool" where
  "wrapped s \<longleftrightarrow> (\<forall>i < n_parts s. 0 \<le> positions0 s ! i \<and> positions0 s ! i < len s \<and>
      0 \<le> positions1 s ! i \<and> positions1 s ! i < len s \<and>
      0 \<le> angles s ! i \<and> angles s ! i < 2 * pi)"

text \<open>
  The state \<open>r\<close> stores the canonical wrap of the positions and orientations of the state
  \<open>p\<close>: each stored value is the value before the wrap minus the box length (or \<open>2 * pi\<close>)
  times the integer part of their quotient.
\<close>

definition wrap_applied :: "'a State_scheme \<Rightarrow> 'a State_scheme \<Rightarrow> bool" where
  "wrap_applied p r \<longleftrightarrow>
     (\<forall>i < n_parts p.
        positions0 r ! i = pbc (positions0 p ! i) (len p) \<and>
        positions0 r ! i = positions0 p ! i - len p * of_int \<lfloor>positions0 p ! i / len p\<rfloor> \<and>
        positions1 r ! i = pbc (positions1 p ! i) (len p) \<and>
        positions1 r ! i = positions1 p ! i - len p * of_int \<lfloor>positions1 p ! i / len p\<rfloor> \<and>
        angles r ! i = pbc (angles p ! i) (2 * pi) \<and>
        angles r ! i = angles p ! i - 2 * pi * of_int \<lfloor>angles p ! i / (2 * pi)\<rfloor>)"

text \<open>
  The neighbour table has one list per cell and names existing cells only (anything else
  is an out-of-range read of \<open>parts_of_box\<close> in the program).
\<close>

definition nbrs_ok :: "Boxes \<Rightarrow> bool" where
  "nbrs_ok b \<longleftrightarrow> length (nbrs_pos b) = getNBoxes b \<and>
      (\<forall>l \<in> set (nbrs_pos b). \<forall>b2 \<in> set l. b2 < getNBoxes b)"

definition lens :: "nat \<Rightarrow> vec \<times> vec \<Rightarrow> bool" where
  "lens n F \<longleftrightarrow> length (fst F) = n \<and> length (snd F) = n"

definition balanced :: "nat \<Rightarrow> vec \<times> vec \<Rightarrow> bool" where
  "balanced n F \<longleftrightarrow> length (fst F) = n \<and> length (snd F) = n \<and>
     sum_list (fst F) = 0 \<and> sum_list (snd F) = 0"

text \<open>
  The pairs \<open>(i, j)\<close> on which the four loops of \<open>calcInternalForces\<close> run the pair body,
  in the order of the loops.
\<close>

definition visits :: "Boxes \<Rightarrow> (nat \<times> nat) list" where
  "visits b =
     concat (map (\<lambda>b1. concat (map (\<lambda>b2. concat (map (\<lambda>i. map (\<lambda>j. (i, j)) (parts_of_box b ! b2))
                                                       (parts_of_box b ! b1)))
                                    (nbrs_pos b ! b1)))
                 [0..<getNBoxes b])"

definition offdiag :: "nat \<times> nat \<Rightarrow> bool" where
  "offdiag p \<longleftrightarrow> fst p \<noteq> snd p"

text \<open>
  The invariant of the loop of \<open>evolve\<close> in the build without MKL, after \<open>m\<close> iterations
  from the state \<open>s\<close>: the particles below \<open>m\<close> have moved, each with three draws of its own.
\<close>

definition std_inv :: "State_std \<Rightarrow> nat \<Rightarrow> State_std \<Rightarrow> bool" where
  "std_inv s m r \<longleftrightarrow>
     forces0 r = forces0 s \<and> forces1 r = forces1 s \<and> dt r = dt s \<and> activity r = activity s \<and>
     noiseTemp r = noiseTemp s \<and> noiseAngle r = noiseAngle s \<and>
     rng r = (rng s)\<lparr>drawn := drawn (rng s) + 3 * m\<rparr> \<and>
     length (positions0 r) = length (positions0 s) \<and> length (positions1 r) = length (positions1 s) \<and>
     length (angles r) = length (angles s) \<and>
     (\<forall>i < n_parts s. positions0 r ! i =
        (if i < m then positions0 s ! i + dt s * (forces0 s ! i + activity s * cos (angles s ! i))
              + (fst (noiseTemp s) + snd (noiseTemp s) * variate (rng s) (drawn (rng s) + 3 * i))
         else positions0 s ! i)) \<and>
     (\<forall>i < n_parts s. positions1 r ! i =
        (if i < m then positions1 s ! i + dt s * (forces1 s ! i + activity s * sin (angles s ! i))
              + (fst (noiseTemp s) + snd (noiseTemp s) * variate (rng s) (drawn (rng s) + 3 * i + 1))
         else positions1 s ! i)) \<and>
     (\<forall>i < n_parts s. angles r ! i =
        (if i < m then angles s ! i
              + (fst (noiseAngle s) + snd (noiseAngle s) * variate (rng s) (drawn (rng s) + 3 * i + 2))
         else angles s ! i))"

text \<open>The same invariant for the loop of the MKL build of the second version.\<close>

definition mkl2_inv :: "State_mkl2 \<Rightarrow> nat \<Rightarrow> State_mkl2 \<Rightarrow> bool" where
  "mkl2_inv s m r \<longleftrightarrow>
     forces0 r = forces0 s \<and> forces1 r = forces1 s \<and> dt r = dt s \<and> activity r = activity s \<and>
     ran_num_x r = ran_num_x s \<and> ran_num_y r = ran_num_y s \<and> ran_num_angle r = ran_num_angle s \<and>
     stream r = stream s \<and>
     length (positions0 r) = length (positions0 s) \<and> length (positions1 r) = length (positions1 s) \<and>
     length (angles r) = length (angles s) \<and>
     (\<forall>i < n_parts s. positions0 r ! i =
        (if i < m then positions0 s ! i + dt s * (forces0 s ! i + activity s * cos (angles s ! i))
              + ran_num_x s ! i
         else positions0 s ! i)) \<and>
     (\<forall>i < n_parts s. positions1 r ! i =
        (if i < m then positions1 s ! i + dt s * (forces1 s ! i + activity s * sin (angles s ! i))
              + ran_num_y s ! i
         else positions1 s ! i)) \<and>
     (\<forall>i < n_parts s. angles r ! i =
        (if i < m then angles s ! i + ran_num_angle s ! i else angles s ! i))"

text \<open>
  The two-particle scenario: no activity, the two particles on one horizontal line at
  minimum-image distance \<open>1/2\<close> (so \<open>dr2 = 1/4\<close>), \<open>d\<close> the signed displacement from particle 1
  to particle 0, and the pair evaluated once by the cell loops.
\<close>

definition repel_setup :: "'a State_scheme \<Rightarrow> real \<Rightarrow> bool" where
  "repel_setup s d \<longleftrightarrow>
     sized s \<and> n_parts s = 2 \<and> 1 < len s \<and> activity s = 0 \<and>
     positions1 s ! 0 = positions1 s ! 1 \<and>
     pbcSym (positions0 s ! 0 - positions0 s ! 1) (len s) = d \<and> \<bar>d\<bar> = 1 / 2 \<and>
     (filter offdiag (visits (update (boxes s) (positions0 s) (positions1 s))) = [(0, 1)] \<or>
      filter offdiag (visits (update (boxes s) (positions0 s) (positions1 s))) = [(1, 0)])"

text \<open>
  What one step does to that pair, before the wrap, from \<open>s\<close> to \<open>r\<close>: particle 0 moves by
  \<open>dt * k * d\<close> and particle 1 by the opposite, each by \<open>dt * k / 2\<close> in magnitude; the
  separation grows when \<open>dt * k\<close> is positive; nothing else moves.
\<close>

definition repelled :: "'a State_scheme \<Rightarrow> 'a State_scheme \<Rightarrow> real \<Rightarrow> bool" where
  "repelled s r d \<longleftrightarrow>
     (let a = positions0 r ! 0 - positions0 s ! 0; b = positions0 r ! 1 - positions0 s ! 1
      in a = dt s * pot_strength s * d \<and> b = - a \<and>
         \<bar>a\<bar> = \<bar>dt s * pot_strength s\<bar> / 2 \<and> \<bar>b\<bar> = \<bar>dt s * pot_strength s\<bar> / 2 \<and>
         (0 < dt s * pot_strength s \<longrightarrow> \<bar>d\<bar> < \<bar>d + (a - b)\<bar>)) \<and>
     positions1 r ! 0 = positions1 s ! 0 \<and> positions1 r ! 1 = positions1 s ! 1 \<and>
     angles r ! 0 = angles s ! 0 \<and> angles r ! 1 = angles s ! 1"

text \<open>The generator after \<open>n\<close> further draws.\<close>

definition advance :: "nat \<Rightarrow> Rng \<Rightarrow> Rng" where
  "advance n g = g\<lparr>drawn := drawn g + n\<rparr>"

section \<open>Concrete inputs\<close>

text \<open>A stand-in for the library generator: it ignores its seed and returns a given sequence.\<close>

definition fixed_rng :: "(nat \<Rightarrow> real) \<Rightarrow> int \<Rightarrow> Rng" where
  "fixed_rng z seed = \<lparr>variate = z, drawn = 0\<rparr>"

text \<open>
  One particle at the origin with orientation 0 in the MKL build of the first version:
  \<open>T = 2\<close>, \<open>D_r = 0\<close>, \<open>dt = 1\<close>, every Gaussian variate 1.
\<close>

definition one_mkl1 :: State_mkl1 where
  "one_mkl1 = new_State_mkl1 4 1 1 2 0 0 1 (new_Boxes 4 1) (fixed_rng (\<lambda>k. if k < 3 then 0 else 1)) 0"

text \<open>The same with \<open>D_r = 2\<close> and the \<open>k\<close>-th Gaussian variate equal to \<open>k\<close>.\<close>

definition counting_mkl1 :: State_mkl1 where
  "counting_mkl1 =
     new_State_mkl1 4 1 1 2 2 0 1 (new_Boxes 4 1) (fixed_rng (\<lambda>k. if k < 3 then 0 else real k)) 0"

text \<open>
  One particle at \<open>(1/2, 7/2)\<close> with orientation 0 in a box of side 4, with noise of deviation
  1 whose draws are \<open>-1\<close>, \<open>1\<close>, \<open>-1\<close>: one step takes \<open>x\<close> below 0, \<open>y\<close> above the box length and
  the orientation below 0. One state for each build.
\<close>

definition out_std :: State_std where
  "out_std = \<lparr>len = 4, n_parts = 1, pot_strength = 1, activity = 0, dt = 1 / 10,
      boxes = new_Boxes 4 1, positions0 = [1 / 2], positions1 = [7 / 2],
      angles = [0], forces0 = [0], forces1 = [0],
      rng = \<lparr>variate = (\<lambda>k. if k = 1 then 1 else - 1), drawn = 0\<rparr>, noiseTemp = (0, 1),
      noiseAngle = (0, 1)\<rparr>"

definition out_mkl1 :: State_mkl1 where
  "out_mkl1 = \<lparr>len = 4, n_parts = 1, pot_strength = 1, activity = 0, dt = 1 / 10,
      boxes = new_Boxes 4 1, positions0 = [1 / 2], positions1 = [7 / 2],
      angles = [0], forces0 = [0], forces1 = [0],
      stream = \<lparr>variate = (\<lambda>k. if k = 1 then 1 else - 1), drawn = 0\<rparr>, stddev_temp = 1,
      stddev_rot = 1, aux_x = [0], aux_y = [0], aux_angle = [0]\<rparr>"

definition out_mkl2 :: State_mkl2 where
  "out_mkl2 = \<lparr>len = 4, n_parts = 1, pot_strength = 1, activity = 0, dt = 1 / 10,
      boxes = new_Boxes 4 1, positions0 = [1 / 2], positions1 = [7 / 2],
      angles = [0], forces0 = [0], forces1 = [0],
      stream = \<lparr>variate = (\<lambda>k. if k = 1 then 1 else - 1), drawn = 0\<rparr>, stddev_temp = 1,
      stddev_rot = 1, ran_num_x = [0], ran_num_y = [0], ran_num_angle = [0]\<rparr>"

text \<open>
  Two particles in neighbouring cells of a \<open>4 \<times> 4\<close> grid, at distance \<open>1/2\<close> along the x-axis,
  with \<open>T = 0\<close>, \<open>D_r = 0\<close>, \<open>v0 = 0\<close>, \<open>k = 1\<close>, \<open>dt = 1/10\<close>, in the build without MKL and in the
  two MKL builds.
\<close>

definition two_std :: State_std where
  "two_std = \<lparr>len = 4, n_parts = 2, pot_strength = 1, activity = 0, dt = 1 / 10,
      boxes = new_Boxes 4 1, positions0 = [3 / 4, 5 / 4], positions1 = [1 / 2, 1 / 2],
      angles = [0, 0], forces0 = [0, 0], forces1 = [0, 0],
      rng = \<lparr>variate = (\<lambda>k. 1), drawn = 0\<rparr>, noiseTemp = (0, sqrt (2 * 0 * (1 / 10))),
      noiseAngle = (0, sqrt (2 * 0 * (1 / 10)))\<rparr>"

definition two_mkl1 :: State_mkl1 where
  "two_mkl1 = \<lparr>len = 4, n_parts = 2, pot_strength = 1, activity = 0, dt = 1 / 10,
      boxes = new_Boxes 4 1, positions0 = [3 / 4, 5 / 4], positions1 = [1 / 2, 1 / 2],
      angles = [0, 0], forces0 = [0, 0], forces1 = [0, 0],
      stream = \<lparr>variate = (\<lambda>k. 1), drawn = 0\<rparr>, stddev_temp = sqrt (2 * 0 * (1 / 10)),
      stddev_rot = sqrt (2 * 0 * (1 / 10)),
      aux_x = [0, 0], aux_y = [0, 0], aux_angle = [0, 0]\<rparr>"

definition two_mkl2 :: State_mkl2 where
  "two_mkl2 = \<lparr>len = 4, n_parts = 2, pot_strength = 1, activity = 0, dt = 1 / 10,
      boxes = new_Boxes 4 1, positions0 = [3 / 4, 5 / 4], positions1 = [1 / 2, 1 / 2],
      angles = [0, 0], forces0 = [0, 0], forces1 = [0, 0],
      stream = \<lparr>variate = (\<lambda>k. 1), drawn = 0\<rparr>, stddev_temp = sqrt (2 * 0 * (1 / 10)),
      stddev_rot = sqrt (2 * 0 * (1 / 10)),
      ran_num_x = [0, 0], ran_num_y = [0, 0], ran_num_angle = [0, 0]\<rparr>"

text \<open>Two particles in the same cell of that grid, at distance \<open>1/4\<close> along the x-axis.\<close>

definition near_pair :: State where
  "near_pair = \<lparr>len = 4, n_parts = 2, pot_strength = 1, activity = 0, dt = 1 / 10,
      boxes = new_Boxes 4 1, positions0 = [1 / 4, 1 / 2], positions1 = [1 / 4, 1 / 4],
      angles = [0, 0], forces0 = [0, 0], forces1 = [0, 0]\<rparr>"

section \<open>Lemmas\<close>

lemma pbc_range: assumes "0 < L" shows "0 \<le> pbc x L \<and> pbc x L < L"
proof -
  define m where "m = real_of_int \<lfloor>x / L\<rfloor>"
  have a: "m \<le> x / L" unfolding m_def by simp
  have b: "x / L < m + 1" unfolding m_def by linarith
  from a assms have "m * L \<le> x" by (simp add: pos_le_divide_eq)
  moreover from b assms have "x < (m + 1) * L" by (simp add: pos_divide_less_eq)
  ultimately show ?thesis by (simp add: pbc_def algebra_simps m_def[symmetric])
qed

lemma pbcSym_zero: "pbcSym 0 L = 0"
  by (simp add: pbcSym_def)

lemma pbcSym_neg: assumes "1 < L" and "\<bar>pbcSym a L\<bar> = 1 / 2"
  shows "pbcSym (- a) L = - pbcSym a L"
proof -
  define m where "m = \<lfloor>a / L + 1 / 2\<rfloor>"
  define d where "d = pbcSym a L"
  have d: "a = d + L * of_int m" by (simp add: d_def pbcSym_def m_def)
  have "- a / L + 1 / 2 = (- d / L + 1 / 2) + of_int (- m)"
    using assms(1) by (simp add: d field_simps)
  then have "\<lfloor>- a / L + 1 / 2\<rfloor> = \<lfloor>- d / L + 1 / 2\<rfloor> + (- m)"
    by (metis floor_add_int)
  moreover have "\<lfloor>- d / L + 1 / 2\<rfloor> = 0"
  proof -
    have "\<bar>d\<bar> / L < 1 / 2" using assms unfolding d_def[symmetric]
      by (simp add: field_simps)
    moreover have "\<bar>d / L\<bar> = \<bar>d\<bar> / L" using assms(1) by simp
    ultimately have "\<bar>d / L\<bar> < 1 / 2" by (simp only:)
    then have "0 \<le> - d / L + 1 / 2" "- d / L + 1 / 2 < 1" by linarith+
    then show ?thesis by (simp add: floor_eq_iff)
  qed
  ultimately have "\<lfloor>- a / L + 1 / 2\<rfloor> = - m" by simp
  then have "pbcSym (- a) L = - a - L * of_int (- m)" by (simp add: pbcSym_def)
  then show ?thesis unfolding d_def[symmetric] by (simp add: d)
qed

lemma zero_loop_nth:
  "length (fold (\<lambda>i f. f[i := 0]) [0..<n] (f::vec)) = length f \<and>
   (\<forall>i < length f. fold (\<lambda>i f. f[i := 0]) [0..<n] f ! i = (if i < n then 0 else f ! i))"
  by (induction n) (auto simp: nth_list_update less_Suc_eq)

lemma zero_loop: "length f = n \<Longrightarrow> fold (\<lambda>i f. f[i := 0]) [0..<n] (f::vec) = replicate n 0"
  using zero_loop_nth[of n f] by (auto simp: list_eq_iff_nth_eq)

lemma sum_list_add_at: "i < length v \<Longrightarrow> sum_list (v[i := v ! i + d]) = sum_list v + (d::real)"
proof (induction v arbitrary: i)
  case Nil then show ?case by simp
next
  case (Cons a v) then show ?case by (cases i) auto
qed

lemma sum_list_pair: 
  assumes "i < length v" "j < length v"
  shows "sum_list (v[i := v ! i + d, j := v[i := v ! i + d] ! j - d]) = sum_list (v::vec)"
proof -
  let ?w = "v[i := v ! i + d]"
  have "sum_list (?w[j := ?w ! j + (- d)]) = sum_list ?w + (- d)"
    using assms by (intro sum_list_add_at) simp
  then show ?thesis using assms by (simp add: sum_list_add_at)
qed

lemma pair_step_balanced:
  assumes "balanced n F" "i < n" "j < n"
  shows "balanced n (pair_step L k xs ys i j F)"
  using assms by (auto simp: balanced_def pair_step_def Let_def sum_list_pair)

lemma update_parts:
  assumes "c < getNBoxes b" "i \<in> set (parts_of_box (update b xs ys) ! c)"
  shows "i < length xs"
  using assms by (simp add: update_def)

lemma cell_loops_balanced:
  assumes "balanced n F" "nbrs_ok b"
    and "\<And>c i. c < getNBoxes b \<Longrightarrow> i \<in> set (parts_of_box b ! c) \<Longrightarrow> i < n"
  shows "balanced n (cell_loops L k xs ys b F)"
  unfolding cell_loops_def
proof (rule fold_invariant[where Q = "\<lambda>b1. b1 < getNBoxes b" and P = "balanced n"])
  show "\<And>x. x \<in> set [0..<getNBoxes b] \<Longrightarrow> x < getNBoxes b" by simp
  show "balanced n F" by fact
next
  fix b1 G assume b1: "b1 < getNBoxes b" and G: "balanced n G"
  have l: "nbrs_pos b ! b1 \<in> set (nbrs_pos b)" using b1 assms(2) by (simp add: nbrs_ok_def)
  show "balanced n (fold (\<lambda>b2. fold (\<lambda>i. fold (\<lambda>j. pair_step L k xs ys i j) (parts_of_box b ! b2))
                              (parts_of_box b ! b1)) (nbrs_pos b ! b1) G)"
  proof (rule fold_invariant[where Q = "\<lambda>b2. b2 < getNBoxes b" and P = "balanced n"])
    show "\<And>x. x \<in> set (nbrs_pos b ! b1) \<Longrightarrow> x < getNBoxes b"
      using l assms(2) by (auto simp: nbrs_ok_def)
    show "balanced n G" by fact
  next
    fix b2 H assume b2: "b2 < getNBoxes b" and H: "balanced n H"
    show "balanced n (fold (\<lambda>i. fold (\<lambda>j. pair_step L k xs ys i j) (parts_of_box b ! b2))
                              (parts_of_box b ! b1) H)"
    proof (rule fold_invariant[where Q = "\<lambda>i. i < n" and P = "balanced n"])
      show "\<And>x. x \<in> set (parts_of_box b ! b1) \<Longrightarrow> x < n" using assms(3) b1 by blast
      show "balanced n H" by fact
    next
      fix i K assume i: "i < n" and K: "balanced n K"
      show "balanced n (fold (\<lambda>j. pair_step L k xs ys i j) (parts_of_box b ! b2) K)"
      proof (rule fold_invariant[where Q = "\<lambda>j. j < n" and P = "balanced n"])
        show "\<And>x. x \<in> set (parts_of_box b ! b2) \<Longrightarrow> x < n" using assms(3) b2 by blast
        show "balanced n K" by fact
        show "\<And>j M. j < n \<Longrightarrow> balanced n M \<Longrightarrow> balanced n (pair_step L k xs ys i j M)"
          using i by (simp add: pair_step_balanced)
      qed
    qed
  qed
qed

lemma update_fields: "nbrs_pos (update b xs ys) = nbrs_pos b" "getNBoxes (update b xs ys) = getNBoxes b"
  by (simp_all add: update_def getNBoxes_def)

lemma calc_balanced:
  assumes "nbrs_ok (boxes s)" "length (forces0 s) = n_parts s" "length (forces1 s) = n_parts s"
    "length (positions0 s) = n_parts s"
  shows "balanced (n_parts s) (forces0 (calcInternalForces s), forces1 (calcInternalForces s))"
proof -
  let ?b = "update (boxes s) (positions0 s) (positions1 s)"
  have z: "balanced (n_parts s) (replicate (n_parts s) 0, replicate (n_parts s) 0)"
    by (simp add: balanced_def sum_list_replicate)
  have ok: "nbrs_ok ?b" using assms(1) by (simp add: nbrs_ok_def update_fields)
  have "balanced (n_parts s) (cell_loops (len s) (pot_strength s) (positions0 s) (positions1 s) ?b
           (replicate (n_parts s) 0, replicate (n_parts s) 0))"
    using z ok
  proof (rule cell_loops_balanced)
    fix c i assume "c < getNBoxes ?b" "i \<in> set (parts_of_box ?b ! c)"
    then have "i < length (positions0 s)" by (intro update_parts) (simp_all add: update_fields)
    then show "i < n_parts s" using assms(4) by simp
  qed
  then show ?thesis using assms by (simp add: calcInternalForces_def Let_def zero_loop)
qed

lemma enforcePBC_loop:
  "len (fold enforcePBC_body [0..<n] s) = len s \<and>
     n_parts (fold enforcePBC_body [0..<n] s) = n_parts s \<and>
     length (positions0 (fold enforcePBC_body [0..<n] s)) = length (positions0 s) \<and>
     length (positions1 (fold enforcePBC_body [0..<n] s)) = length (positions1 s) \<and>
     length (angles (fold enforcePBC_body [0..<n] s)) = length (angles s) \<and>
     (\<forall>i < length (positions0 s). positions0 (fold enforcePBC_body [0..<n] s) ! i =
          (if i < n then pbc (positions0 s ! i) (len s) else positions0 s ! i)) \<and>
     (\<forall>i < length (positions1 s). positions1 (fold enforcePBC_body [0..<n] s) ! i =
          (if i < n then pbc (positions1 s ! i) (len s) else positions1 s ! i)) \<and>
     (\<forall>i < length (angles s). angles (fold enforcePBC_body [0..<n] s) ! i =
          (if i < n then pbc (angles s ! i) (2 * pi) else angles s ! i))"
  by (induction n) (auto simp: enforcePBC_body_def nth_list_update less_Suc_eq)

lemma enforcePBC_wrapped:
  assumes "0 < len s" "length (positions0 s) = n_parts s" "length (positions1 s) = n_parts s"
    "length (angles s) = n_parts s"
  shows "wrapped (enforcePBC s)"
  using enforcePBC_loop[of "n_parts s" s] assms pbc_range[of "len s"] pbc_range[of "2 * pi"]
  by (simp add: wrapped_def enforcePBC_def)

lemma pair_step_length:
  "length (fst (pair_step L k xs ys i j F)) = length (fst F) \<and>
   length (snd (pair_step L k xs ys i j F)) = length (snd F)"
  by (simp add: pair_step_def Let_def)

lemma calc_fields:
  "len (calcInternalForces s) = len s" "n_parts (calcInternalForces s) = n_parts s"
  "positions0 (calcInternalForces s) = positions0 s" "positions1 (calcInternalForces s) = positions1 s"
  "angles (calcInternalForces s) = angles s" "dt (calcInternalForces s) = dt s"
  "activity (calcInternalForces s) = activity s" "pot_strength (calcInternalForces s) = pot_strength s"
  "State.more (calcInternalForces s) = State.more s"
  by (simp_all add: calcInternalForces_def Let_def)

lemma body_std_fields:
  "len (evolve_body_std i s) = len s" "n_parts (evolve_body_std i s) = n_parts s"
  "length (positions0 (evolve_body_std i s)) = length (positions0 s)"
  "length (positions1 (evolve_body_std i s)) = length (positions1 s)"
  "length (angles (evolve_body_std i s)) = length (angles s)"
  by (simp_all add: evolve_body_std_def Let_def gaussian_draw_def)

lemma loop_std_fields:
  "len (fold evolve_body_std js s) = len s \<and> n_parts (fold evolve_body_std js s) = n_parts s \<and>
  length (positions0 (fold evolve_body_std js s)) = length (positions0 s) \<and>
  length (positions1 (fold evolve_body_std js s)) = length (positions1 s) \<and>
  length (angles (fold evolve_body_std js s)) = length (angles s)"
  by (induction js arbitrary: s) (simp_all add: body_std_fields)

lemma body_mkl2_fields:
  "len (evolve_body_mkl2 i s) = len s" "n_parts (evolve_body_mkl2 i s) = n_parts s"
  "length (positions0 (evolve_body_mkl2 i s)) = length (positions0 s)"
  "length (positions1 (evolve_body_mkl2 i s)) = length (positions1 s)"
  "length (angles (evolve_body_mkl2 i s)) = length (angles s)"
  by (simp_all add: evolve_body_mkl2_def Let_def)

lemma loop_mkl2_fields:
  "len (fold evolve_body_mkl2 js s) = len s \<and> n_parts (fold evolve_body_mkl2 js s) = n_parts s \<and>
  length (positions0 (fold evolve_body_mkl2 js s)) = length (positions0 s) \<and>
  length (positions1 (fold evolve_body_mkl2 js s)) = length (positions1 s) \<and>
  length (angles (fold evolve_body_mkl2 js s)) = length (angles s)"
  by (induction js arbitrary: s) (simp_all add: body_mkl2_fields)

lemma wrapped_std: assumes "0 < len s" "sized s" shows "wrapped (evolve_std s)"
  unfolding evolve_std_def
  using assms loop_std_fields[of "[0..<n_parts s]" "calcInternalForces s"]
  by (intro enforcePBC_wrapped) (simp_all add: step_std_def Let_def calc_fields sized_def)

lemma wrapped_mkl2: assumes "0 < len s" "sized_mkl2 s" shows "wrapped (evolve_mkl2 s)"
  unfolding evolve_mkl2_def
proof (intro enforcePBC_wrapped)
  let ?c = "calcInternalForces s"
  obtain s1 where s1: "step_mkl2 s = fold evolve_body_mkl2 [0..<n_parts s] s1"
     and f: "len s1 = len s" "n_parts s1 = n_parts s" "positions0 s1 = positions0 s"
        "positions1 s1 = positions1 s" "angles s1 = angles s"
    by (simp add: step_mkl2_def Let_def calc_fields vdRngGaussian_def)
  show "0 < len (step_mkl2 s)" "length (positions0 (step_mkl2 s)) = n_parts (step_mkl2 s)"
     "length (positions1 (step_mkl2 s)) = n_parts (step_mkl2 s)"
     "length (angles (step_mkl2 s)) = n_parts (step_mkl2 s)"
    using assms f loop_mkl2_fields[of "[0..<n_parts s]" s1] 
    by (simp_all add: s1 sized_mkl2_def sized_def)
qed

lemma fold_pres: "(\<And>x s. P s \<Longrightarrow> P (f x s)) \<Longrightarrow> P s \<Longrightarrow> P (fold f xs s)"
  by (induction xs arbitrary: s) simp_all

lemma cell_loops_lens: "lens n F \<Longrightarrow> lens n (cell_loops L k xs ys b F)"
  unfolding cell_loops_def
  by (intro fold_pres[where P = "lens n"]) (simp_all add: lens_def pair_step_length)

lemma calc_sized: assumes "sized s" shows "sized (calcInternalForces s)"
proof -
  have "lens (n_parts s) (cell_loops (len s) (pot_strength s) (positions0 s) (positions1 s)
          (update (boxes s) (positions0 s) (positions1 s))
          (replicate (n_parts s) 0, replicate (n_parts s) 0))"
    by (intro cell_loops_lens) (simp add: lens_def)
  then show ?thesis using assms
    by (simp add: calcInternalForces_def Let_def zero_loop sized_def lens_def)
qed

lemma enforcePBC_rest:
  "forces0 (fold enforcePBC_body js s) = forces0 s \<and>
     forces1 (fold enforcePBC_body js s) = forces1 s \<and>
     State.more (fold enforcePBC_body js s) = State.more s \<and>
     n_parts (fold enforcePBC_body js s) = n_parts s \<and>
     length (positions0 (fold enforcePBC_body js s)) = length (positions0 s) \<and>
     length (positions1 (fold enforcePBC_body js s)) = length (positions1 s) \<and>
     length (angles (fold enforcePBC_body js s)) = length (angles s)"
  by (induction js arbitrary: s) (simp_all add: enforcePBC_body_def)

lemma enforcePBC_sized: "sized s \<Longrightarrow> sized (enforcePBC s)"
  using enforcePBC_rest[of "[0..<n_parts s]" s] by (simp add: sized_def enforcePBC_def)

lemma enforcePBC_more: "State.more (enforcePBC s) = State.more s"
  using enforcePBC_rest[of "[0..<n_parts s]" s] by (simp add: enforcePBC_def)

lemma body_std_forces:
  "forces0 (evolve_body_std i s) = forces0 s" "forces1 (evolve_body_std i s) = forces1 s"
  by (simp_all add: evolve_body_std_def Let_def gaussian_draw_def)

lemma loop_std_forces:
  "forces0 (fold evolve_body_std js s) = forces0 s \<and> forces1 (fold evolve_body_std js s) = forces1 s"
  by (induction js arbitrary: s) (simp_all add: body_std_forces)

lemma step_std_sized: assumes "sized s" shows "sized (step_std s)"
  using calc_sized[OF assms] loop_std_fields[of "[0..<n_parts s]" "calcInternalForces s"]
    loop_std_forces[of "[0..<n_parts s]" "calcInternalForces s"]
  by (simp add: step_std_def Let_def sized_def calc_fields)

lemma len_vdAdd: "length a = n \<Longrightarrow> length b = n \<Longrightarrow> length y = n \<Longrightarrow> length (vdAdd n a b y) = n"
  by (simp add: vdAdd_def)

lemma len_cblas: "length x = n \<Longrightarrow> length (cblas_dscal n alpha x) = n"
  by (simp add: cblas_dscal_def)

lemma len_sincos:
  "length a = n \<Longrightarrow> length y = n \<Longrightarrow> length z = n \<Longrightarrow>
   length (fst (vdSinCos n a y z)) = n \<and> length (snd (vdSinCos n a y z)) = n"
  by (simp add: vdSinCos_def)

lemma len_gauss: "length r = n \<Longrightarrow> length (fst (vdRngGaussian g n r a sigma)) = n"
  by (simp add: vdRngGaussian_def)

lemma calc_more_mkl1:
  "aux_x (calcInternalForces s) = aux_x s" "aux_y (calcInternalForces s) = aux_y s"
  "aux_angle (calcInternalForces s) = aux_angle s" "stream (calcInternalForces s) = stream s"
  "stddev_temp (calcInternalForces s) = stddev_temp s" "stddev_rot (calcInternalForces s) = stddev_rot s"
  by (simp_all add: calcInternalForces_def Let_def)

lemma calc_more_mkl2:
  "ran_num_x (calcInternalForces s) = ran_num_x s" "ran_num_y (calcInternalForces s) = ran_num_y s"
  "ran_num_angle (calcInternalForces s) = ran_num_angle s" "stream (calcInternalForces s) = stream s"
  "stddev_temp (calcInternalForces s) = stddev_temp s" "stddev_rot (calcInternalForces s) = stddev_rot s"
  by (simp_all add: calcInternalForces_def Let_def)

lemma step_mkl1_lengths:
  assumes "sized_mkl1 s"
  shows "len (step_mkl1 s) = len s" "n_parts (step_mkl1 s) = n_parts s"
    "length (positions0 (step_mkl1 s)) = n_parts s" "length (positions1 (step_mkl1 s)) = n_parts s"
    "length (angles (step_mkl1 s)) = n_parts s"
    "length (aux_x (step_mkl1 s)) = n_parts s" "length (aux_y (step_mkl1 s)) = n_parts s"
    "length (aux_angle (step_mkl1 s)) = n_parts s"
    "forces0 (step_mkl1 s) = forces0 (calcInternalForces s)"
    "forces1 (step_mkl1 s) = forces1 (calcInternalForces s)"
  using assms calc_sized[of s]
  by (simp_all add: step_mkl1_def Let_def split_def sized_mkl1_def sized_def calc_fields
      calc_more_mkl1 len_vdAdd len_cblas len_sincos len_gauss)

lemma more_mkl2:
  "State.more (a::State_mkl2) = State.more b \<Longrightarrow>
     ran_num_x a = ran_num_x b \<and> ran_num_y a = ran_num_y b \<and> ran_num_angle a = ran_num_angle b
     \<and> stream a = stream b \<and> stddev_temp a = stddev_temp b \<and> stddev_rot a = stddev_rot b"
  by (cases a; cases b) simp

lemma more_mkl1:
  "State.more (a::State_mkl1) = State.more b \<Longrightarrow>
     aux_x a = aux_x b \<and> aux_y a = aux_y b \<and> aux_angle a = aux_angle b
     \<and> stream a = stream b \<and> stddev_temp a = stddev_temp b \<and> stddev_rot a = stddev_rot b"
  by (cases a; cases b) simp

lemma body_mkl2_rest:
  "forces0 (evolve_body_mkl2 i s) = forces0 s" "forces1 (evolve_body_mkl2 i s) = forces1 s"
  "ran_num_x (evolve_body_mkl2 i s) = ran_num_x s" "ran_num_y (evolve_body_mkl2 i s) = ran_num_y s"
  "ran_num_angle (evolve_body_mkl2 i s) = ran_num_angle s"
  by (simp_all add: evolve_body_mkl2_def Let_def)

lemma loop_mkl2_rest:
  "forces0 (fold evolve_body_mkl2 js s) = forces0 s \<and> forces1 (fold evolve_body_mkl2 js s) = forces1 s
  \<and> ran_num_x (fold evolve_body_mkl2 js s) = ran_num_x s \<and> ran_num_y (fold evolve_body_mkl2 js s) = ran_num_y s
  \<and> ran_num_angle (fold evolve_body_mkl2 js s) = ran_num_angle s"
  by (induction js arbitrary: s) (simp_all add: body_mkl2_rest)

lemma step_mkl2_sized: assumes "sized_mkl2 s" shows "sized_mkl2 (step_mkl2 s)"
proof -
  have c: "sized (calcInternalForces s)" using assms by (simp add: calc_sized sized_mkl2_def)
  define s1 where "s1 = (let s = calcInternalForces s;
          (rx, g1) = vdRngGaussian (stream s) (n_parts s) (ran_num_x s) 0 (stddev_temp s);
          (ry, g2) = vdRngGaussian g1 (n_parts s) (ran_num_y s) 0 (stddev_temp s);
          (ra, g3) = vdRngGaussian g2 (n_parts s) (ran_num_angle s) 0 (stddev_rot s)
      in s\<lparr>stream := g3, ran_num_x := rx, ran_num_y := ry, ran_num_angle := ra\<rparr>)"
  have s1: "step_mkl2 s = fold evolve_body_mkl2 [0..<n_parts s] s1"
    by (simp add: step_mkl2_def s1_def Let_def split_def calc_fields)
  have "sized_mkl2 s1" using c assms
    by (simp add: s1_def Let_def split_def sized_mkl2_def sized_def len_gauss calc_fields calc_more_mkl2)
  then show ?thesis
    using loop_mkl2_fields[of "[0..<n_parts s]" s1] loop_mkl2_rest[of "[0..<n_parts s]" s1]
    by (simp add: s1 sized_mkl2_def sized_def)
qed

lemma step_mkl1_sized: assumes "sized_mkl1 s" shows "sized_mkl1 (step_mkl1 s)"
  using step_mkl1_lengths[OF assms] calc_sized[of s] assms
  by (simp add: sized_mkl1_def sized_def calc_fields)

lemma wrapped_mkl1: assumes "0 < len s" "sized_mkl1 s" shows "wrapped (evolve_mkl1 s)"
  unfolding evolve_mkl1_def
  using assms step_mkl1_lengths[OF assms(2)]
  by (intro enforcePBC_wrapped) simp_all

lemma enforcePBC_fixed: "n_parts (enforcePBC s) = n_parts s" "len (enforcePBC s) = len s"
  using enforcePBC_loop[of "n_parts s" s] by (simp_all add: enforcePBC_def)

lemma nth_vdAdd: "length a = n \<Longrightarrow> length b = n \<Longrightarrow> i < n \<Longrightarrow> vdAdd n a b y ! i = a ! i + b ! i"
  by (simp add: vdAdd_def nth_append)

lemma nth_cblas: "length x = n \<Longrightarrow> i < n \<Longrightarrow> cblas_dscal n alpha x ! i = alpha * x ! i"
  by (simp add: cblas_dscal_def nth_append)

lemma nth_sincos:
  "length a = n \<Longrightarrow> i < n \<Longrightarrow> fst (vdSinCos n a y z) ! i = sin (a ! i) \<and> snd (vdSinCos n a y z) ! i = cos (a ! i)"
  by (simp add: vdSinCos_def nth_append)

lemma nth_gauss:
  "i < n \<Longrightarrow> fst (vdRngGaussian g n r a sigma) ! i = a + sigma * variate g (drawn g + i)"
  by (simp add: vdRngGaussian_def nth_append)

lemma snd_gauss: "snd (vdRngGaussian g n r a sigma) = g\<lparr>drawn := drawn g + n\<rparr>"
  by (simp add: vdRngGaussian_def)

lemma step_mkl1_nth:
  assumes "sized_mkl1 s" and "i < n_parts s"
  shows "positions0 (step_mkl1 s) ! i =
           positions0 s ! i + dt s * (forces0 (calcInternalForces s) ! i + activity s * cos (angles s ! i))
             + stddev_temp s * variate (stream s) (drawn (stream s) + i)"
    and "positions1 (step_mkl1 s) ! i =
           positions1 s ! i + dt s * (forces1 (calcInternalForces s) ! i + activity s * sin (angles s ! i))
             + stddev_temp s * variate (stream s) (drawn (stream s) + n_parts s + i)"
    and "angles (step_mkl1 s) ! i =
           angles s ! i + stddev_temp s * variate (stream s) (drawn (stream s) + i)"
    and "aux_angle (step_mkl1 s) ! i =
           stddev_rot s * variate (stream s) (drawn (stream s) + n_parts s + n_parts s + i)"
  using assms calc_sized[of s]
  by (simp_all add: step_mkl1_def Let_def split_def sized_mkl1_def sized_def calc_fields
      calc_more_mkl1 len_vdAdd len_cblas len_sincos len_gauss nth_vdAdd nth_cblas nth_sincos
      nth_gauss snd_gauss algebra_simps)

lemma body_std_rest:
  "dt (evolve_body_std i s) = dt s" "activity (evolve_body_std i s) = activity s"
  "noiseTemp (evolve_body_std i s) = noiseTemp s" "noiseAngle (evolve_body_std i s) = noiseAngle s"
  "rng (evolve_body_std i s) = (rng s)\<lparr>drawn := drawn (rng s) + 3\<rparr>"
  by (simp_all add: evolve_body_std_def Let_def gaussian_draw_def)

lemma body_std_nth:
  assumes "i < length (positions0 s)" "i < length (positions1 s)" "i < length (angles s)"
  shows "positions0 (evolve_body_std m s) ! i =
           (if i = m then positions0 s ! i + dt s * (forces0 s ! i + activity s * cos (angles s ! i))
                 + (fst (noiseTemp s) + snd (noiseTemp s) * variate (rng s) (drawn (rng s)))
            else positions0 s ! i)"
    "positions1 (evolve_body_std m s) ! i =
           (if i = m then positions1 s ! i + dt s * (forces1 s ! i + activity s * sin (angles s ! i))
                 + (fst (noiseTemp s) + snd (noiseTemp s) * variate (rng s) (drawn (rng s) + 1))
            else positions1 s ! i)"
    "angles (evolve_body_std m s) ! i =
           (if i = m then angles s ! i
                 + (fst (noiseAngle s) + snd (noiseAngle s) * variate (rng s) (drawn (rng s) + 2))
            else angles s ! i)"
  using assms by (auto simp add: evolve_body_std_def Let_def gaussian_draw_def nth_list_update)

lemma std_inv_0: "std_inv s 0 s"
  by (simp add: std_inv_def)

lemma std_inv_step:
  assumes "std_inv s m r" "sized s" "m < n_parts s"
  shows "std_inv s (Suc m) (evolve_body_std m r)"
proof -
  have l: "length (positions0 r) = n_parts s" "length (positions1 r) = n_parts s"
     "length (angles r) = n_parts s"
    using assms by (simp_all add: std_inv_def sized_def)
  have r: "positions0 r ! m = positions0 s ! m" "positions1 r ! m = positions1 s ! m"
     "angles r ! m = angles s ! m" "forces0 r = forces0 s" "forces1 r = forces1 s"
     "dt r = dt s" "activity r = activity s" "noiseTemp r = noiseTemp s"
     "noiseAngle r = noiseAngle s" "rng r = (rng s)\<lparr>drawn := drawn (rng s) + 3 * m\<rparr>"
    using assms by (simp_all add: std_inv_def)
  have old: "\<And>i. i < n_parts s \<Longrightarrow> i \<noteq> m \<Longrightarrow>
       positions0 (evolve_body_std m r) ! i = positions0 r ! i \<and>
       positions1 (evolve_body_std m r) ! i = positions1 r ! i \<and>
       angles (evolve_body_std m r) ! i = angles r ! i"
    using l by (simp add: body_std_nth)
  have new: "positions0 (evolve_body_std m r) ! m =
        positions0 s ! m + dt s * (forces0 s ! m + activity s * cos (angles s ! m))
              + (fst (noiseTemp s) + snd (noiseTemp s) * variate (rng s) (drawn (rng s) + 3 * m))"
     "positions1 (evolve_body_std m r) ! m =
        positions1 s ! m + dt s * (forces1 s ! m + activity s * sin (angles s ! m))
              + (fst (noiseTemp s) + snd (noiseTemp s) * variate (rng s) (drawn (rng s) + 3 * m + 1))"
     "angles (evolve_body_std m r) ! m = angles s ! m
              + (fst (noiseAngle s) + snd (noiseAngle s) * variate (rng s) (drawn (rng s) + 3 * m + 2))"
    using l assms(3) by (simp_all add: body_std_nth r)
  have rest: "forces0 (evolve_body_std m r) = forces0 s" "forces1 (evolve_body_std m r) = forces1 s"
    "dt (evolve_body_std m r) = dt s" "activity (evolve_body_std m r) = activity s"
    "noiseTemp (evolve_body_std m r) = noiseTemp s" "noiseAngle (evolve_body_std m r) = noiseAngle s"
    "rng (evolve_body_std m r) = (rng s)\<lparr>drawn := drawn (rng s) + 3 * Suc m\<rparr>"
    "length (positions0 (evolve_body_std m r)) = length (positions0 s)"
    "length (positions1 (evolve_body_std m r)) = length (positions1 s)"
    "length (angles (evolve_body_std m r)) = length (angles s)"
    using assms(1) by (simp_all add: body_std_rest body_std_forces body_std_fields r std_inv_def)
  have p0: "\<forall>i < n_parts s. positions0 (evolve_body_std m r) ! i =
        (if i < Suc m then positions0 s ! i + dt s * (forces0 s ! i + activity s * cos (angles s ! i))
              + (fst (noiseTemp s) + snd (noiseTemp s) * variate (rng s) (drawn (rng s) + 3 * i))
         else positions0 s ! i)"
  proof (intro allI impI)
    fix i assume i: "i < n_parts s"
    show "positions0 (evolve_body_std m r) ! i =
        (if i < Suc m then positions0 s ! i + dt s * (forces0 s ! i + activity s * cos (angles s ! i))
              + (fst (noiseTemp s) + snd (noiseTemp s) * variate (rng s) (drawn (rng s) + 3 * i))
         else positions0 s ! i)"
    proof (cases "i = m")
      case True then show ?thesis using new by simp
    next
      case False
      then show ?thesis using old[OF i False] assms(1) i by (auto simp: std_inv_def less_Suc_eq)
    qed
  qed
  have p1: "\<forall>i < n_parts s. positions1 (evolve_body_std m r) ! i =
        (if i < Suc m then positions1 s ! i + dt s * (forces1 s ! i + activity s * sin (angles s ! i))
              + (fst (noiseTemp s) + snd (noiseTemp s) * variate (rng s) (drawn (rng s) + 3 * i + 1))
         else positions1 s ! i)"
  proof (intro allI impI)
    fix i assume i: "i < n_parts s"
    show "positions1 (evolve_body_std m r) ! i =
        (if i < Suc m then positions1 s ! i + dt s * (forces1 s ! i + activity s * sin (angles s ! i))
              + (fst (noiseTemp s) + snd (noiseTemp s) * variate (rng s) (drawn (rng s) + 3 * i + 1))
         else positions1 s ! i)"
    proof (cases "i = m")
      case True then show ?thesis using new by simp
    next
      case False
      then show ?thesis using old[OF i False] assms(1) i by (auto simp: std_inv_def less_Suc_eq)
    qed
  qed
  have an: "\<forall>i < n_parts s. angles (evolve_body_std m r) ! i =
        (if i < Suc m then angles s ! i
              + (fst (noiseAngle s) + snd (noiseAngle s) * variate (rng s) (drawn (rng s) + 3 * i + 2))
         else angles s ! i)"
  proof (intro allI impI)
    fix i assume i: "i < n_parts s"
    show "angles (evolve_body_std m r) ! i =
        (if i < Suc m then angles s ! i
              + (fst (noiseAngle s) + snd (noiseAngle s) * variate (rng s) (drawn (rng s) + 3 * i + 2))
         else angles s ! i)"
    proof (cases "i = m")
      case True then show ?thesis using new by simp
    next
      case False
      then show ?thesis using old[OF i False] assms(1) i by (auto simp: std_inv_def less_Suc_eq)
    qed
  qed
  show ?thesis unfolding std_inv_def using rest p0 p1 an by blast
qed

lemma std_inv_loop: "sized s \<Longrightarrow> m \<le> n_parts s \<Longrightarrow> std_inv s m (fold evolve_body_std [0..<m] s)"
  by (induction m) (simp_all add: std_inv_0 std_inv_step)

lemma one_mkl1_fields:
  "n_parts one_mkl1 = 1" "positions0 one_mkl1 = [0]" "positions1 one_mkl1 = [0]" "angles one_mkl1 = [0]"
  "stddev_temp one_mkl1 = 2" "stddev_rot one_mkl1 = 0" "dt one_mkl1 = 1" "activity one_mkl1 = 0"
  "stream one_mkl1 = \<lparr>variate = (\<lambda>k. if k < 3 then 0 else 1), drawn = 3\<rparr>"
  "sized_mkl1 one_mkl1"
  by (simp_all add: one_mkl1_def new_State_mkl1_def vdRngUniform_def fixed_rng_def Let_def
       sized_mkl1_def sized_def)

lemma fold_concat_map: "fold f (concat (map g xs)) = fold (\<lambda>x. fold f (g x)) xs"
  by (induction xs) simp_all

lemma cell_loops_visits:
  "cell_loops L k xs ys b = fold (\<lambda>p. pair_step L k xs ys (fst p) (snd p)) (visits b)"
  by (simp add: cell_loops_def visits_def fold_concat_map fold_map comp_def fun_eq_iff)

lemma pair_step_diag: "pair_step L k xs ys i i F = F"
  by (simp add: pair_step_def pbcSym_zero)

lemma fold_filter_id:
  "(\<And>x. x \<in> set xs \<Longrightarrow> \<not> P x \<Longrightarrow> f x = id) \<Longrightarrow> fold f xs = fold f (filter P xs)"
  by (induction xs) auto

lemma cell_loops_offdiag:
  "cell_loops L k xs ys b =
     fold (\<lambda>p. pair_step L k xs ys (fst p) (snd p)) (filter (\<lambda>p. fst p \<noteq> snd p) (visits b))"
  unfolding cell_loops_visits
  by (rule fold_filter_id) (auto simp: fun_eq_iff pair_step_diag)

lemma sqrt_quarter: "sqrt (1 / 4) = 1 / 2"
  by (simp add: real_sqrt_divide)

lemma pair_step_half:
  assumes "pbcSym (xs ! i - xs ! j) L = d" "\<bar>d\<bar> = 1 / 2" "ys ! i = ys ! j"
  shows "pair_step L k xs ys i j (f0, f1) =
           (f0[i := f0 ! i + k * d, j := f0[i := f0 ! i + k * d] ! j - k * d],
            f1[i := f1 ! i + 0, j := f1[i := f1 ! i + 0] ! j - 0])"
proof -
  have "d = 1 / 2 \<or> d = - (1 / 2)" using assms(2) by linarith
  then have dd: "d * d = 1 / 4"
  proof
    assume h: "d = 1 / 2" show ?thesis unfolding h by simp
  next
    assume h: "d = - (1 / 2)" show ?thesis unfolding h by simp
  qed
  show ?thesis using assms(1,3) by (simp add: pair_step_def Let_def pbcSym_zero dd sqrt_quarter)
qed

lemma once_forces:
  assumes once: "filter (\<lambda>p. fst p \<noteq> snd p) (visits b) = [(0, 1)] \<or>
                 filter (\<lambda>p. fst p \<noteq> snd p) (visits b) = [(1, 0)]"
    and L: "1 < L" and y: "ys ! 0 = ys ! 1"
    and d: "pbcSym (xs ! 0 - xs ! 1) L = d" "\<bar>d\<bar> = 1 / 2"
  shows "cell_loops L k xs ys b ([0, 0], [0, 0]) = ([k * d, - (k * d)], [0, 0])"
proof -
  have d': "pbcSym (xs ! 1 - xs ! 0) L = - d" "\<bar>- d\<bar> = 1 / 2"
    using pbcSym_neg[of L "xs ! 0 - xs ! 1"] L d by simp_all
  from once show ?thesis
  proof
    assume "filter (\<lambda>p. fst p \<noteq> snd p) (visits b) = [(0, 1)]"
    then show ?thesis using pair_step_half[OF d y, of k "[0, 0]" "[0, 0]"]
      by (simp add: cell_loops_offdiag)
  next
    assume "filter (\<lambda>p. fst p \<noteq> snd p) (visits b) = [(1, 0)]"
    then show ?thesis using pair_step_half[OF d' y[symmetric], of k "[0, 0]" "[0, 0]"]
      by (simp add: cell_loops_offdiag)
  qed
qed

lemma calc_two:
  assumes "sized s" "n_parts s = 2"
  shows "forces0 (calcInternalForces s) = fst (cell_loops (len s) (pot_strength s) (positions0 s) (positions1 s)
            (update (boxes s) (positions0 s) (positions1 s)) ([0, 0], [0, 0]))"
      "forces1 (calcInternalForces s) = snd (cell_loops (len s) (pot_strength s) (positions0 s) (positions1 s)
            (update (boxes s) (positions0 s) (positions1 s)) ([0, 0], [0, 0]))"
proof -
  have "replicate (n_parts s) (0::real) = [0, 0]" using assms(2) by (simp add: numeral_2_eq_2)
  then show "forces0 (calcInternalForces s) = fst (cell_loops (len s) (pot_strength s) (positions0 s) (positions1 s)
            (update (boxes s) (positions0 s) (positions1 s)) ([0, 0], [0, 0]))"
      "forces1 (calcInternalForces s) = snd (cell_loops (len s) (pot_strength s) (positions0 s) (positions1 s)
            (update (boxes s) (positions0 s) (positions1 s)) ([0, 0], [0, 0]))"
    using assms by (simp_all add: calcInternalForces_def Let_def zero_loop sized_def)
qed

lemma calc_more_std:
  "rng (calcInternalForces s) = rng s" "noiseTemp (calcInternalForces s) = noiseTemp s"
  "noiseAngle (calcInternalForces s) = noiseAngle s"
  by (simp_all add: calcInternalForces_def Let_def)

lemma step_std_nth:
  assumes "sized s" and "i < n_parts s"
  shows "positions0 (step_std s) ! i =
           positions0 s ! i + dt s * (forces0 (calcInternalForces s) ! i + activity s * cos (angles s ! i))
             + (fst (noiseTemp s) + snd (noiseTemp s) * variate (rng s) (drawn (rng s) + 3 * i))"
    and "positions1 (step_std s) ! i =
           positions1 s ! i + dt s * (forces1 (calcInternalForces s) ! i + activity s * sin (angles s ! i))
             + (fst (noiseTemp s) + snd (noiseTemp s) * variate (rng s) (drawn (rng s) + 3 * i + 1))"
    and "angles (step_std s) ! i =
           angles s ! i
             + (fst (noiseAngle s) + snd (noiseAngle s) * variate (rng s) (drawn (rng s) + 3 * i + 2))"
  using std_inv_loop[OF calc_sized[OF assms(1)], of "n_parts s"] assms(2)
  by (simp_all add: step_std_def Let_def std_inv_def calc_fields calc_more_std)

lemma repel_forces:
  assumes "repel_setup s d"
  shows "forces0 (calcInternalForces s) = [pot_strength s * d, - (pot_strength s * d)]"
    "forces1 (calcInternalForces s) = [0, 0]"
proof -
  have s: "sized s" "n_parts s = 2" using assms by (simp_all add: repel_setup_def)
  have "cell_loops (len s) (pot_strength s) (positions0 s) (positions1 s)
            (update (boxes s) (positions0 s) (positions1 s)) ([0, 0], [0, 0])
        = ([pot_strength s * d, - (pot_strength s * d)], [0, 0])"
    using assms by (intro once_forces) (simp_all add: repel_setup_def offdiag_def[abs_def])
  then show "forces0 (calcInternalForces s) = [pot_strength s * d, - (pot_strength s * d)]"
    "forces1 (calcInternalForces s) = [0, 0]"
    by (simp_all add: calc_two[OF s])
qed

lemma repelled_intro:
  fixes d c x0 x0' x1 x1' :: real
  assumes "\<bar>d\<bar> = 1 / 2" "x0' - x0 = c * d" "x1' - x1 = - (c * d)"
  shows "(let a = x0' - x0; b = x1' - x1
          in a = c * d \<and> b = - a \<and> \<bar>a\<bar> = \<bar>c\<bar> / 2 \<and> \<bar>b\<bar> = \<bar>c\<bar> / 2 \<and>
             (0 < c \<longrightarrow> \<bar>d\<bar> < \<bar>d + (a - b)\<bar>))"
proof -
  have m: "\<bar>c * d\<bar> = \<bar>c\<bar> / 2" using assms(1) by (simp add: abs_mult)
  have "d + (c * d - - (c * d)) = d * (1 + 2 * c)" by (simp add: algebra_simps)
  then have "\<bar>d + (c * d - - (c * d))\<bar> = (1 / 2) * \<bar>1 + 2 * c\<bar>"
    using assms(1) by (simp only: abs_mult)
  then have g: "0 < c \<Longrightarrow> \<bar>d\<bar> < \<bar>d + (c * d - - (c * d))\<bar>" using assms(1) by simp
  show ?thesis using m g by (simp add: Let_def assms(2,3))
qed

lemma repel_std:
  assumes "repel_setup s d" "noiseTemp s = (0, sqrt (2 * 0 * dt s))"
    "noiseAngle s = (0, sqrt (2 * 0 * dt s))"
  shows "repelled s (step_std s) d"
proof -
  have s: "sized s" "n_parts s = 2" "activity s = 0" "\<bar>d\<bar> = 1 / 2"
    using assms by (simp_all add: repel_setup_def)
  have i: "0 < n_parts s" "1 < n_parts s" using s by simp_all
  have x: "positions0 (step_std s) ! 0 - positions0 s ! 0 = dt s * pot_strength s * d"
    "positions0 (step_std s) ! 1 - positions0 s ! 1 = - (dt s * pot_strength s * d)"
    using step_std_nth(1)[OF s(1) i(1)] step_std_nth(1)[OF s(1) i(2)] repel_forces[OF assms(1)]
      assms(2,3) s(3)
    by simp_all
  have r: "positions1 (step_std s) ! 0 = positions1 s ! 0" "positions1 (step_std s) ! 1 = positions1 s ! 1"
    "angles (step_std s) ! 0 = angles s ! 0" "angles (step_std s) ! 1 = angles s ! 1"
    using step_std_nth(2,3)[OF s(1) i(1)] step_std_nth(2,3)[OF s(1) i(2)] repel_forces[OF assms(1)]
      assms(2,3) s(3)
    by simp_all
  show ?thesis unfolding repelled_def using repelled_intro[OF s(4) x] r by simp
qed

lemma repel_mkl1:
  assumes "repel_setup s d" "sized_mkl1 s" "stddev_temp s = sqrt (2 * 0 * dt s)"
    "stddev_rot s = sqrt (2 * 0 * dt s)"
  shows "repelled s (step_mkl1 s) d"
proof -
  have s: "n_parts s = 2" "activity s = 0" "\<bar>d\<bar> = 1 / 2"
    using assms by (simp_all add: repel_setup_def)
  have i: "0 < n_parts s" "1 < n_parts s" using s by simp_all
  have x: "positions0 (step_mkl1 s) ! 0 - positions0 s ! 0 = dt s * pot_strength s * d"
    "positions0 (step_mkl1 s) ! 1 - positions0 s ! 1 = - (dt s * pot_strength s * d)"
    using step_mkl1_nth(1)[OF assms(2) i(1)] step_mkl1_nth(1)[OF assms(2) i(2)]
      repel_forces[OF assms(1)] assms(3,4) s(2)
    by simp_all
  have r: "positions1 (step_mkl1 s) ! 0 = positions1 s ! 0" "positions1 (step_mkl1 s) ! 1 = positions1 s ! 1"
    "angles (step_mkl1 s) ! 0 = angles s ! 0" "angles (step_mkl1 s) ! 1 = angles s ! 1"
    using step_mkl1_nth(2,3)[OF assms(2) i(1)] step_mkl1_nth(2,3)[OF assms(2) i(2)]
      repel_forces[OF assms(1)] assms(3,4) s(2)
    by simp_all
  show ?thesis unfolding repelled_def using repelled_intro[OF s(3) x] r by simp
qed

lemma two_std_visits:
  "visits (update (new_Boxes 4 1) [3 / 4, 5 / 4] [1 / 2, 1 / 2]) = [(0, 0), (0, 1), (1, 1)]"
  by (simp add: visits_def update_def new_Boxes_def getNBoxes_def box_of_def box_coord_def
      half_stencil_def Let_def upt_rec)

lemma two_std_setup: "repel_setup two_std (- (1 / 2))"
  by (simp add: repel_setup_def two_std_def sized_def two_std_visits offdiag_def pbcSym_def)

lemma sqrt_sixteenth: "sqrt (1 / 16) = 1 / 4"
  by (simp add: real_sqrt_divide)

lemma near_pair_01:
  "pair_step 4 k [1 / 4, 1 / 2] [1 / 4, 1 / 4] 0 (Suc 0) ([a, b], [c, e]) = ([a - 3 * k / 4, b + 3 * k / 4], [c, e])"
  by (simp add: pair_step_def Let_def pbcSym_def sqrt_sixteenth)

lemma near_pair_10:
  "pair_step 4 k [1 / 4, 1 / 2] [1 / 4, 1 / 4] (Suc 0) 0 ([a, b], [c, e]) = ([a - 3 * k / 4, b + 3 * k / 4], [c, e])"
  by (simp add: pair_step_def Let_def pbcSym_def sqrt_sixteenth)

lemma empties:
  "[] # [] # [] # [] # [] # [] # [] # [] # [] # [] # [] # [] # [] # [] # [] # [] =
     replicate 15 ([]::nat list)"
  by (simp add: numeral_eq_Suc)

lemma near_update:
  assumes "n_boxes_x b = 4" "len_box b = 1"
  shows "parts_of_box (update b [1 / 4, 1 / 2] [1 / 4, 1 / 4]) = [0, Suc 0] # replicate 15 []"
    "getNBoxes (update b [1 / 4, 1 / 2] [1 / 4, 1 / 4]) = 16"
  using assms
  by (simp_all add: update_def getNBoxes_def box_of_def box_coord_def upt_rec empties)

lemma near_nbr_loop:
  assumes "\<forall>b2 \<in> set l. b2 < 16"
  shows "fold (\<lambda>b2. fold (\<lambda>i. fold (\<lambda>j. pair_step 4 k [1 / 4, 1 / 2] [1 / 4, 1 / 4] i j)
                                    (([0, Suc 0] # replicate 15 []) ! b2)) [0, Suc 0]) l ([a, b], [c, e])
         = ([a - 3 * k / 2 * real (count_list l 0), b + 3 * k / 2 * real (count_list l 0)], [c, e])"
  using assms
proof (induction l arbitrary: a b)
  case Nil
  then show ?case by simp
next
  case (Cons b2 l)
  show ?case
  proof (cases "b2 = 0")
    case True
    have "\<forall>b2 \<in> set l. b2 < 16" using Cons.prems by simp
    from Cons.IH[OF this, of "a - 3 * k / 4 - 3 * k / 4" "b + 3 * k / 4 + 3 * k / 4"] True
    show ?thesis
      by (simp add: pair_step_diag near_pair_01 near_pair_10 algebra_simps)
  next
    case False
    then have "([0, Suc 0] # replicate 15 []) ! b2 = ([]::nat list)" using Cons.prems
      by (cases b2) simp_all
    then show ?thesis using Cons False by simp
  qed
qed

lemma near_cell_loops:
  assumes "n_boxes_x b = 4" "len_box b = 1" "nbrs_ok b"
  shows "cell_loops 4 k [1 / 4, 1 / 2] [1 / 4, 1 / 4] (update b [1 / 4, 1 / 2] [1 / 4, 1 / 4]) ([0, 0], [0, 0])
     = ([- (3 * k / 2 * real (count_list (nbrs_pos b ! 0) 0)),
         3 * k / 2 * real (count_list (nbrs_pos b ! 0) 0)], [0, 0])"
proof -
  let ?u = "update b [1 / 4, 1 / 2] [1 / 4, 1 / 4]"
  let ?body = "\<lambda>b1. fold (\<lambda>b2. fold (\<lambda>i. fold (\<lambda>j. pair_step 4 k [1 / 4, 1 / 2] [1 / 4, 1 / 4] i j)
                   (([0, Suc 0] # replicate 15 []) ! b2)) (([0, Suc 0] # replicate 15 []) ! b1)) (nbrs_pos b ! b1)"
  have nb: "getNBoxes b = 16" using assms(1) by (simp add: getNBoxes_def)
  have in_range: "\<forall>b2 \<in> set (nbrs_pos b ! 0). b2 < 16"
    using assms(3) nb by (auto simp: nbrs_ok_def dest: nth_mem[of 0 "nbrs_pos b"])
  have rest: "fold ?body [Suc 0..<16] = id"
  proof (rule fold_id)
    fix b1 assume "b1 \<in> set [Suc 0..<16]"
    then have "0 < b1" "b1 < 16" by simp_all
    then have "([0, Suc 0] # replicate 15 []) ! b1 = ([]::nat list)" by (cases b1) simp_all
    then show "?body b1 = id" by (simp add: fun_eq_iff fold_id)
  qed
  have "[0..<16] = 0 # [Suc 0..<16]" by (simp add: upt_rec)
  then have "cell_loops 4 k [1 / 4, 1 / 2] [1 / 4, 1 / 4] ?u ([0, 0], [0, 0])
       = fold ?body [Suc 0..<16] (?body 0 ([0, 0], [0, 0]))"
    by (simp add: cell_loops_def near_update[OF assms(1,2)] update_fields(1) comp_def)
  also have "\<dots> = ?body 0 ([0, 0], [0, 0])" by (simp add: rest)
  also have "\<dots> = ([- (3 * k / 2 * real (count_list (nbrs_pos b ! 0) 0)),
         3 * k / 2 * real (count_list (nbrs_pos b ! 0) 0)], [0, 0])"
    using near_nbr_loop[OF in_range, of k 0 0 0 0] by simp
  finally show ?thesis .
qed

lemma near_brute:
  "brute_forces 4 k [1 / 4, 1 / 2] [1 / 4, 1 / 4] 2 = ([- (3 * k / 4), 3 * k / 4], [0, 0])"
  by (simp add: brute_forces_def upt_rec numeral_2_eq_2 near_pair_10)

lemma half_not_nat: "3 * k / 2 * real m = 3 * k / 4 \<Longrightarrow> k = 0"
proof -
  assume a: "3 * k / 2 * real m = 3 * k / 4"
  show "k = 0"
  proof (rule ccontr)
    assume "k \<noteq> 0"
    with a have "real (2 * m) = 1" by (simp add: field_simps)
    then have "2 * m = 1" by (metis of_nat_eq_1_iff)
    then show False by presburger
  qed
qed

lemma snd_gauss_advance: "snd (vdRngGaussian g n r a sigma) = advance n g"
  by (simp add: vdRngGaussian_def advance_def)

lemma body_mkl2_more:
  "dt (evolve_body_mkl2 i s) = dt s" "activity (evolve_body_mkl2 i s) = activity s"
  "stream (evolve_body_mkl2 i s) = stream s"
  by (simp_all add: evolve_body_mkl2_def Let_def)

lemma body_mkl2_nth:
  assumes "i < length (positions0 s)" "i < length (positions1 s)" "i < length (angles s)"
  shows "positions0 (evolve_body_mkl2 m s) ! i =
           (if i = m then positions0 s ! i + dt s * (forces0 s ! i + activity s * cos (angles s ! i))
                 + ran_num_x s ! i
            else positions0 s ! i)"
    "positions1 (evolve_body_mkl2 m s) ! i =
           (if i = m then positions1 s ! i + dt s * (forces1 s ! i + activity s * sin (angles s ! i))
                 + ran_num_y s ! i
            else positions1 s ! i)"
    "angles (evolve_body_mkl2 m s) ! i =
           (if i = m then angles s ! i + ran_num_angle s ! i else angles s ! i)"
  using assms by (auto simp add: evolve_body_mkl2_def Let_def nth_list_update)

lemma mkl2_inv_0: "mkl2_inv s 0 s"
  by (simp add: mkl2_inv_def)

lemma mkl2_inv_step:
  assumes "mkl2_inv s m r" "sized s" "m < n_parts s"
  shows "mkl2_inv s (Suc m) (evolve_body_mkl2 m r)"
proof -
  have l: "length (positions0 r) = n_parts s" "length (positions1 r) = n_parts s"
     "length (angles r) = n_parts s"
    using assms by (simp_all add: mkl2_inv_def sized_def)
  have r: "positions0 r ! m = positions0 s ! m" "positions1 r ! m = positions1 s ! m"
     "angles r ! m = angles s ! m" "forces0 r = forces0 s" "forces1 r = forces1 s"
     "dt r = dt s" "activity r = activity s" "ran_num_x r = ran_num_x s"
     "ran_num_y r = ran_num_y s" "ran_num_angle r = ran_num_angle s" "stream r = stream s"
    using assms by (simp_all add: mkl2_inv_def)
  have old: "\<And>i. i < n_parts s \<Longrightarrow> i \<noteq> m \<Longrightarrow>
       positions0 (evolve_body_mkl2 m r) ! i = positions0 r ! i \<and>
       positions1 (evolve_body_mkl2 m r) ! i = positions1 r ! i \<and>
       angles (evolve_body_mkl2 m r) ! i = angles r ! i"
    using l by (simp add: body_mkl2_nth)
  have new: "positions0 (evolve_body_mkl2 m r) ! m =
        positions0 s ! m + dt s * (forces0 s ! m + activity s * cos (angles s ! m)) + ran_num_x s ! m"
     "positions1 (evolve_body_mkl2 m r) ! m =
        positions1 s ! m + dt s * (forces1 s ! m + activity s * sin (angles s ! m)) + ran_num_y s ! m"
     "angles (evolve_body_mkl2 m r) ! m = angles s ! m + ran_num_angle s ! m"
    using l assms(3) by (simp_all add: body_mkl2_nth r)
  have rest: "forces0 (evolve_body_mkl2 m r) = forces0 s" "forces1 (evolve_body_mkl2 m r) = forces1 s"
    "dt (evolve_body_mkl2 m r) = dt s" "activity (evolve_body_mkl2 m r) = activity s"
    "ran_num_x (evolve_body_mkl2 m r) = ran_num_x s" "ran_num_y (evolve_body_mkl2 m r) = ran_num_y s"
    "ran_num_angle (evolve_body_mkl2 m r) = ran_num_angle s"
    "stream (evolve_body_mkl2 m r) = stream s"
    "length (positions0 (evolve_body_mkl2 m r)) = length (positions0 s)"
    "length (positions1 (evolve_body_mkl2 m r)) = length (positions1 s)"
    "length (angles (evolve_body_mkl2 m r)) = length (angles s)"
    using assms(1) by (simp_all add: body_mkl2_more body_mkl2_rest body_mkl2_fields r mkl2_inv_def)
  have p0: "\<forall>i < n_parts s. positions0 (evolve_body_mkl2 m r) ! i =
        (if i < Suc m then positions0 s ! i + dt s * (forces0 s ! i + activity s * cos (angles s ! i))
              + ran_num_x s ! i
         else positions0 s ! i)"
  proof (intro allI impI)
    fix i assume i: "i < n_parts s"
    show "positions0 (evolve_body_mkl2 m r) ! i =
        (if i < Suc m then positions0 s ! i + dt s * (forces0 s ! i + activity s * cos (angles s ! i))
              + ran_num_x s ! i
         else positions0 s ! i)"
    proof (cases "i = m")
      case True then show ?thesis using new by simp
    next
      case False
      then show ?thesis using old[OF i False] assms(1) i by (auto simp: mkl2_inv_def less_Suc_eq)
    qed
  qed
  have p1: "\<forall>i < n_parts s. positions1 (evolve_body_mkl2 m r) ! i =
        (if i < Suc m then positions1 s ! i + dt s * (forces1 s ! i + activity s * sin (angles s ! i))
              + ran_num_y s ! i
         else positions1 s ! i)"
  proof (intro allI impI)
    fix i assume i: "i < n_parts s"
    show "positions1 (evolve_body_mkl2 m r) ! i =
        (if i < Suc m then positions1 s ! i + dt s * (forces1 s ! i + activity s * sin (angles s ! i))
              + ran_num_y s ! i
         else positions1 s ! i)"
    proof (cases "i = m")
      case True then show ?thesis using new by simp
    next
      case False
      then show ?thesis using old[OF i False] assms(1) i by (auto simp: mkl2_inv_def less_Suc_eq)
    qed
  qed
  have an: "\<forall>i < n_parts s. angles (evolve_body_mkl2 m r) ! i =
        (if i < Suc m then angles s ! i + ran_num_angle s ! i else angles s ! i)"
  proof (intro allI impI)
    fix i assume i: "i < n_parts s"
    show "angles (evolve_body_mkl2 m r) ! i =
        (if i < Suc m then angles s ! i + ran_num_angle s ! i else angles s ! i)"
    proof (cases "i = m")
      case True then show ?thesis using new by simp
    next
      case False
      then show ?thesis using old[OF i False] assms(1) i by (auto simp: mkl2_inv_def less_Suc_eq)
    qed
  qed
  show ?thesis unfolding mkl2_inv_def using rest p0 p1 an by blast
qed

lemma mkl2_inv_loop: "sized s \<Longrightarrow> m \<le> n_parts s \<Longrightarrow> mkl2_inv s m (fold evolve_body_mkl2 [0..<m] s)"
  by (induction m) (simp_all add: mkl2_inv_0 mkl2_inv_step)

lemma step_mkl2_nth:
  assumes "sized_mkl2 s" and "i < n_parts s"
  shows "positions0 (step_mkl2 s) ! i =
           positions0 s ! i + dt s * (forces0 (calcInternalForces s) ! i + activity s * cos (angles s ! i))
             + stddev_temp s * variate (stream s) (drawn (stream s) + i)"
    and "positions1 (step_mkl2 s) ! i =
           positions1 s ! i + dt s * (forces1 (calcInternalForces s) ! i + activity s * sin (angles s ! i))
             + stddev_temp s * variate (stream s) (drawn (stream s) + n_parts s + i)"
    and "angles (step_mkl2 s) ! i =
           angles s ! i + stddev_rot s * variate (stream s) (drawn (stream s) + n_parts s + n_parts s + i)"
proof -
  define s1 where "s1 = (calcInternalForces s)
      \<lparr>stream := advance (n_parts s) (advance (n_parts s) (advance (n_parts s) (stream s))),
       ran_num_x := fst (vdRngGaussian (stream s) (n_parts s) (ran_num_x s) 0 (stddev_temp s)),
       ran_num_y := fst (vdRngGaussian (advance (n_parts s) (stream s)) (n_parts s) (ran_num_y s) 0
                          (stddev_temp s)),
       ran_num_angle := fst (vdRngGaussian (advance (n_parts s) (advance (n_parts s) (stream s)))
                          (n_parts s) (ran_num_angle s) 0 (stddev_rot s))\<rparr>"
  have e: "step_mkl2 s = fold evolve_body_mkl2 [0..<n_parts s] s1"
    by (simp add: step_mkl2_def s1_def Let_def split_def calc_fields calc_more_mkl2 snd_gauss_advance)
  have z: "sized s1" "n_parts s1 = n_parts s"
    using calc_sized[of s] assms(1) by (simp_all add: s1_def sized_mkl2_def sized_def calc_fields)
  have inv: "mkl2_inv s1 (n_parts s) (fold evolve_body_mkl2 [0..<n_parts s] s1)"
    using mkl2_inv_loop[OF z(1), of "n_parts s"] z(2) by simp
  have f: "positions0 s1 = positions0 s" "positions1 s1 = positions1 s" "angles s1 = angles s"
    "dt s1 = dt s" "activity s1 = activity s" "forces0 s1 = forces0 (calcInternalForces s)"
    "forces1 s1 = forces1 (calcInternalForces s)"
    "ran_num_x s1 ! i = stddev_temp s * variate (stream s) (drawn (stream s) + i)"
    "ran_num_y s1 ! i = stddev_temp s * variate (stream s) (drawn (stream s) + n_parts s + i)"
    "ran_num_angle s1 ! i = stddev_rot s * variate (stream s) (drawn (stream s) + n_parts s + n_parts s + i)"
    using assms(2) by (simp_all add: s1_def calc_fields nth_gauss advance_def add.assoc)
  show "positions0 (step_mkl2 s) ! i =
           positions0 s ! i + dt s * (forces0 (calcInternalForces s) ! i + activity s * cos (angles s ! i))
             + stddev_temp s * variate (stream s) (drawn (stream s) + i)"
    using inv assms(2) z(2) by (simp add: e mkl2_inv_def f)
  show "positions1 (step_mkl2 s) ! i =
           positions1 s ! i + dt s * (forces1 (calcInternalForces s) ! i + activity s * sin (angles s ! i))
             + stddev_temp s * variate (stream s) (drawn (stream s) + n_parts s + i)"
    using inv assms(2) z(2) by (simp add: e mkl2_inv_def f)
  show "angles (step_mkl2 s) ! i =
           angles s ! i + stddev_rot s * variate (stream s) (drawn (stream s) + n_parts s + n_parts s + i)"
    using inv assms(2) z(2) by (simp add: e mkl2_inv_def f)
qed

lemma repel_mkl2:
  assumes "repel_setup s d" "sized_mkl2 s" "stddev_temp s = sqrt (2 * 0 * dt s)"
    "stddev_rot s = sqrt (2 * 0 * dt s)"
  shows "repelled s (step_mkl2 s) d"
proof -
  have s: "n_parts s = 2" "activity s = 0" "\<bar>d\<bar> = 1 / 2"
    using assms by (simp_all add: repel_setup_def)
  have i: "0 < n_parts s" "1 < n_parts s" using s by simp_all
  have x: "positions0 (step_mkl2 s) ! 0 - positions0 s ! 0 = dt s * pot_strength s * d"
    "positions0 (step_mkl2 s) ! 1 - positions0 s ! 1 = - (dt s * pot_strength s * d)"
    using step_mkl2_nth(1)[OF assms(2) i(1)] step_mkl2_nth(1)[OF assms(2) i(2)]
      repel_forces[OF assms(1)] assms(3,4) s(2)
    by simp_all
  have r: "positions1 (step_mkl2 s) ! 0 = positions1 s ! 0" "positions1 (step_mkl2 s) ! 1 = positions1 s ! 1"
    "angles (step_mkl2 s) ! 0 = angles s ! 0" "angles (step_mkl2 s) ! 1 = angles s ! 1"
    using step_mkl2_nth(2,3)[OF assms(2) i(1)] step_mkl2_nth(2,3)[OF assms(2) i(2)]
      repel_forces[OF assms(1)] assms(3,4) s(2)
    by simp_all
  show ?thesis unfolding repelled_def using repelled_intro[OF s(3) x] r by simp
qed

lemma nbrs_ok_grid: "nbrs_ok (new_Boxes 4 1)"
  by (simp add: nbrs_ok_def new_Boxes_def getNBoxes_def half_stencil_def Let_def upt_rec)

lemma enforcePBC_applied:
  assumes "length (positions0 p) = n_parts p" "length (positions1 p) = n_parts p"
    "length (angles p) = n_parts p"
  shows "wrap_applied p (enforcePBC p)"
  using enforcePBC_loop[of "n_parts p" p] assms
  by (simp add: wrap_applied_def enforcePBC_def pbc_def)

lemma wrap_appliedD:
  assumes "wrap_applied p r" "i < n_parts p"
  shows "positions0 r ! i = positions0 p ! i - len p * of_int \<lfloor>positions0 p ! i / len p\<rfloor>"
    "positions1 r ! i = positions1 p ! i - len p * of_int \<lfloor>positions1 p ! i / len p\<rfloor>"
    "angles r ! i = angles p ! i - 2 * pi * of_int \<lfloor>angles p ! i / (2 * pi)\<rfloor>"
  using assms unfolding wrap_applied_def by blast+

lemma lone_forces:
  assumes "sized s" "n_parts s = 1" "nbrs_ok (boxes s)"
  shows "forces0 (calcInternalForces s) = [0]" "forces1 (calcInternalForces s) = [0]"
proof -
  have b: "balanced 1 (forces0 (calcInternalForces s), forces1 (calcInternalForces s))"
    using calc_balanced[of s] assms by (simp add: sized_def)
  have one: "\<And>v::vec. length v = 1 \<Longrightarrow> sum_list v = 0 \<Longrightarrow> v = [0]"
  proof -
    fix v :: vec assume "length v = 1" "sum_list v = 0"
    then show "v = [0]" by (cases v) auto
  qed
  show "forces0 (calcInternalForces s) = [0]" "forces1 (calcInternalForces s) = [0]"
    using b by (simp_all add: balanced_def one)
qed

lemma floor_back_turn: "\<lfloor>- (1 / (2 * pi))\<rfloor> = - 1"
proof -
  have "1 / (2 * pi) < 1" using pi_ge_two by (simp add: field_simps)
  moreover have "0 < 1 / (2 * pi)" using pi_gt_zero by simp
  ultimately have "- 1 \<le> - (1 / (2 * pi))" "- (1 / (2 * pi)) < 0" by simp_all
  then show ?thesis by (simp add: floor_eq_iff)
qed

lemma out_std_facts:
  "0 < len out_std" "sized out_std" "n_parts out_std = 1" "nbrs_ok (boxes out_std)"
  by (simp_all add: out_std_def sized_def nbrs_ok_grid)

lemma out_std_step:
  "positions0 (step_std out_std) ! 0 = - (1 / 2)" "positions1 (step_std out_std) ! 0 = 9 / 2"
  "angles (step_std out_std) ! 0 = - 1"
  using step_std_nth[OF out_std_facts(2), of 0] lone_forces[OF out_std_facts(2,3,4)]
  by (simp_all add: out_std_def)

lemma out_mkl1_facts:
  "0 < len out_mkl1" "sized_mkl1 out_mkl1" "sized out_mkl1" "n_parts out_mkl1 = 1"
  "nbrs_ok (boxes out_mkl1)"
  by (simp_all add: out_mkl1_def sized_mkl1_def sized_def nbrs_ok_grid)

lemma out_mkl1_step:
  "positions0 (step_mkl1 out_mkl1) ! 0 = - (1 / 2)" "positions1 (step_mkl1 out_mkl1) ! 0 = 9 / 2"
  "angles (step_mkl1 out_mkl1) ! 0 = - 1"
  using step_mkl1_nth[OF out_mkl1_facts(2), of 0] lone_forces[OF out_mkl1_facts(3,4,5)]
  by (simp_all add: out_mkl1_def)

lemma out_mkl2_facts:
  "0 < len out_mkl2" "sized_mkl2 out_mkl2" "sized out_mkl2" "n_parts out_mkl2 = 1"
  "nbrs_ok (boxes out_mkl2)"
  by (simp_all add: out_mkl2_def sized_mkl2_def sized_def nbrs_ok_grid)

lemma out_mkl2_step:
  "positions0 (step_mkl2 out_mkl2) ! 0 = - (1 / 2)" "positions1 (step_mkl2 out_mkl2) ! 0 = 9 / 2"
  "angles (step_mkl2 out_mkl2) ! 0 = - 1"
  using step_mkl2_nth[OF out_mkl2_facts(2), of 0] lone_forces[OF out_mkl2_facts(3,4,5)]
  by (simp_all add: out_mkl2_def)

lemma step_fixed:
  "sized s \<Longrightarrow> n_parts (step_std s) = n_parts s \<and> len (step_std s) = len s"
  "sized_mkl1 s1 \<Longrightarrow> n_parts (step_mkl1 s1) = n_parts s1 \<and> len (step_mkl1 s1) = len s1"
  "sized_mkl2 s2 \<Longrightarrow> n_parts (step_mkl2 s2) = n_parts s2 \<and> len (step_mkl2 s2) = len s2"
proof -
  show "sized s \<Longrightarrow> n_parts (step_std s) = n_parts s \<and> len (step_std s) = len s"
    using loop_std_fields[of "[0..<n_parts s]" "calcInternalForces s"]
    by (simp add: step_std_def Let_def calc_fields)
  show "sized_mkl1 s1 \<Longrightarrow> n_parts (step_mkl1 s1) = n_parts s1 \<and> len (step_mkl1 s1) = len s1"
    by (simp add: step_mkl1_lengths)
  show "sized_mkl2 s2 \<Longrightarrow> n_parts (step_mkl2 s2) = n_parts s2 \<and> len (step_mkl2 s2) = len s2"
    using loop_mkl2_fields[of "[0..<n_parts s2]"]
    by (simp add: step_mkl2_def Let_def split_def calc_fields)
qed

section \<open>Facts about the concrete inputs\<close>

lemma cutoff_iff: "(dr2 * (1 - dr2) > 0) = (0 < dr2 \<and> dr2 < (1::real))"
  by (auto simp: zero_less_mult_iff)

lemma own_cell_listed_once: "count_list (nbrs_pos (new_Boxes 4 1) ! 0) 0 = 1"
  by (simp add: new_Boxes_def half_stencil_def Let_def upt_rec)

lemma counting_mkl1_fields:
  "n_parts counting_mkl1 = 1" "positions0 counting_mkl1 = [0]" "angles counting_mkl1 = [0]"
  "stddev_temp counting_mkl1 = 2" "stddev_rot counting_mkl1 = 2"
  "stream counting_mkl1 = \<lparr>variate = (\<lambda>k. if k < 3 then 0 else real k), drawn = 3\<rparr>"
  "sized_mkl1 counting_mkl1"
  by (simp_all add: counting_mkl1_def new_State_mkl1_def vdRngUniform_def fixed_rng_def Let_def
       sized_mkl1_def sized_def)

lemma two_std_sized: "sized two_std"
  by (simp add: two_std_def sized_def)

lemma two_mkl1_setup: "repel_setup two_mkl1 (- (1 / 2))" "sized_mkl1 two_mkl1"
  by (simp_all add: repel_setup_def two_mkl1_def sized_mkl1_def sized_def two_std_visits
      offdiag_def pbcSym_def)

lemma two_mkl2_setup: "repel_setup two_mkl2 (- (1 / 2))" "sized_mkl2 two_mkl2"
  by (simp_all add: repel_setup_def two_mkl2_def sized_mkl2_def sized_def two_std_visits
      offdiag_def pbcSym_def)

section \<open>Results\<close>

text \<open>
  C1. Claimed: the forces that \<open>calcInternalForces\<close> computes through the cell list equal
  the forces of a scan over all unordered pairs, every pair within the cutoff contributing
  exactly once. The loops run the pair body on every ordered pair of a cell and a
  neighbour cell, so two particles that share a cell are visited as \<open>(0, 1)\<close> and as
  \<open>(1, 0)\<close>, once for every occurrence of the cell in its own neighbour list: the pair
  contributes an even number of times, never once. For two particles at distance \<open>1/4\<close> in
  one cell the force differs from the reference whatever the neighbour table is.
\<close>

theorem same_cell_pair_not_counted_once:
  assumes "sized s" and "len s = 4" and "n_parts s = 2"
    and "positions0 s = [1 / 4, 1 / 2]" and "positions1 s = [1 / 4, 1 / 4]"
    and "n_boxes_x (boxes s) = 4" and "len_box (boxes s) = 1" and "nbrs_ok (boxes s)"
    and "pot_strength s \<noteq> 0"
  shows "forces0 (calcInternalForces s) =
           [- (3 * pot_strength s / 2 * real (count_list (nbrs_pos (boxes s) ! 0) 0)),
            3 * pot_strength s / 2 * real (count_list (nbrs_pos (boxes s) ! 0) 0)]
         \<and> fst (brute_forces (len s) (pot_strength s) (positions0 s) (positions1 s) (n_parts s)) =
           [- (3 * pot_strength s / 4), 3 * pot_strength s / 4]
         \<and> forces0 (calcInternalForces s) \<noteq>
           fst (brute_forces (len s) (pot_strength s) (positions0 s) (positions1 s) (n_parts s))"
proof -
  let ?k = "pot_strength s"
  let ?m = "real (count_list (nbrs_pos (boxes s) ! 0) 0)"
  have a: "forces0 (calcInternalForces s) = [- (3 * ?k / 2 * ?m), 3 * ?k / 2 * ?m]"
    using calc_two(1)[OF assms(1,3)] near_cell_loops[OF assms(6,7,8), of ?k]
    by (simp add: assms(2,4,5))
  have b: "fst (brute_forces (len s) ?k (positions0 s) (positions1 s) (n_parts s)) =
             [- (3 * ?k / 4), 3 * ?k / 4]"
    by (simp add: assms(2,3,4,5) near_brute)
  have "3 * ?k / 2 * ?m \<noteq> 3 * ?k / 4" using half_not_nat[of ?k] assms(9) by blast
  then show ?thesis using a b by simp
qed

theorem same_cell_pair_doubled:
  "sized near_pair \<and> nbrs_ok (boxes near_pair) \<and> pot_strength near_pair \<noteq> 0
   \<and> forces0 (calcInternalForces near_pair) = [- (3 / 2), 3 / 2]
   \<and> fst (brute_forces 4 1 [1 / 4, 1 / 2] [1 / 4, 1 / 4] 2) = [- (3 / 4), 3 / 4]"
proof -
  have h: "sized near_pair" "len near_pair = 4" "n_parts near_pair = 2"
    "positions0 near_pair = [1 / 4, 1 / 2]" "positions1 near_pair = [1 / 4, 1 / 4]"
    "n_boxes_x (boxes near_pair) = 4" "len_box (boxes near_pair) = 1"
    "nbrs_ok (boxes near_pair)" "pot_strength near_pair \<noteq> 0"
    by (simp_all add: near_pair_def sized_def nbrs_ok_grid) (simp_all add: new_Boxes_def)
  have c: "count_list (nbrs_pos (boxes near_pair) ! 0) 0 = 1"
    by (simp add: near_pair_def own_cell_listed_once)
  have k: "pot_strength near_pair = 1" by (simp add: near_pair_def)
  show ?thesis using same_cell_pair_not_counted_once[OF h] h(1,8)
    by (simp add: c k h(2,3,4,5))
qed

text \<open>
  C2. Claimed: one \<open>evolve\<close> adds \<open>dt * (force + v0 * cos/sin)\<close> and a Gaussian draw of deviation
  \<open>sqrt (2 * T * dt)\<close> to each coordinate and a Gaussian draw of deviation \<open>sqrt (2 * D_r * dt)\<close>
  to the orientation, in both code paths. In the MKL build of the first version of
  state.cpp the orientation receives the array \<open>aux_x\<close>: the draw of deviation
  \<open>stddev_temp\<close> that was added to \<open>x\<close>, not the rotational draw.
\<close>

theorem mkl1_step_update:
  assumes "sized_mkl1 s" and "i < n_parts s"
  shows "positions0 (step_mkl1 s) ! i =
           positions0 s ! i + dt s * (forces0 (calcInternalForces s) ! i + activity s * cos (angles s ! i))
             + stddev_temp s * variate (stream s) (drawn (stream s) + i)
         \<and> positions1 (step_mkl1 s) ! i =
           positions1 s ! i + dt s * (forces1 (calcInternalForces s) ! i + activity s * sin (angles s ! i))
             + stddev_temp s * variate (stream s) (drawn (stream s) + n_parts s + i)
         \<and> angles (step_mkl1 s) ! i =
           angles s ! i + stddev_temp s * variate (stream s) (drawn (stream s) + i)"
  using step_mkl1_nth(1,2,3)[OF assms] by simp

theorem mkl1_turns_without_rotational_noise:
  "sized_mkl1 one_mkl1 \<and> 0 < n_parts one_mkl1 \<and> stddev_rot one_mkl1 = 0
   \<and> angles one_mkl1 ! 0 = 0 \<and> angles (step_mkl1 one_mkl1) ! 0 = 2"
  using mkl1_step_update[of one_mkl1 0] by (simp add: one_mkl1_fields)

text \<open>
  C3. Claimed: the three noise values of a particle are three distinct fresh draws, and
  the value added to the orientation is never the sample added to \<open>x\<close> or \<open>y\<close>. In the MKL
  build of the first version the value added to the orientation of particle \<open>i\<close> is the
  very sample added to its \<open>x\<close> (variate \<open>drawn + i\<close> of the stream); the third batch of
  draws is stored in \<open>aux_angle\<close> and added to nothing.
\<close>

theorem mkl1_angle_reuses_x_sample:
  assumes "sized_mkl1 s" and "i < n_parts s"
  shows "angles (step_mkl1 s) ! i - angles s ! i =
           positions0 (step_mkl1 s) ! i -
             (positions0 s ! i + dt s * (forces0 (calcInternalForces s) ! i + activity s * cos (angles s ! i)))
         \<and> angles (step_mkl1 s) ! i - angles s ! i =
             stddev_temp s * variate (stream s) (drawn (stream s) + i)
         \<and> aux_angle (step_mkl1 s) ! i =
             stddev_rot s * variate (stream s) (drawn (stream s) + n_parts s + n_parts s + i)"
  using step_mkl1_nth(1,3,4)[OF assms] by simp

theorem mkl1_third_draw_unused:
  "sized_mkl1 counting_mkl1 \<and> 0 < n_parts counting_mkl1
   \<and> angles (step_mkl1 counting_mkl1) ! 0 - angles counting_mkl1 ! 0 = 6
   \<and> aux_angle (step_mkl1 counting_mkl1) ! 0 = 10"
  using mkl1_angle_reuses_x_sample[of counting_mkl1 0] by (simp add: counting_mkl1_fields)

text \<open>
  C4. After every \<open>evolve\<close>, for every particle, \<open>0 \<le> x < L\<close>, \<open>0 \<le> y < L\<close> and
  \<open>0 \<le> orientation < 2 * pi\<close>, the canonical non-negative wrap being applied to all three
  stored quantities at the end of the step. In the three builds, for a positive box length
  and arrays of \<open>n_parts\<close> entries: the state after \<open>evolve\<close> is in range; every stored
  position and orientation is the value the update loop left, minus \<open>L\<close> (or \<open>2 * pi\<close>) times
  the integer part of their quotient; and the arrays still have \<open>n_parts\<close> entries, so the
  same holds after the next call.
\<close>

theorem evolve_wrapped:
  "(0 < len s \<and> sized s \<longrightarrow>
      wrapped (evolve_std s) \<and> sized (evolve_std s) \<and> wrap_applied (step_std s) (evolve_std s) \<and>
      n_parts (step_std s) = n_parts s \<and> len (step_std s) = len s)
   \<and> (0 < len s1 \<and> sized_mkl1 s1 \<longrightarrow>
      wrapped (evolve_mkl1 s1) \<and> sized_mkl1 (evolve_mkl1 s1) \<and>
      wrap_applied (step_mkl1 s1) (evolve_mkl1 s1) \<and>
      n_parts (step_mkl1 s1) = n_parts s1 \<and> len (step_mkl1 s1) = len s1)
   \<and> (0 < len s2 \<and> sized_mkl2 s2 \<longrightarrow>
      wrapped (evolve_mkl2 s2) \<and> sized_mkl2 (evolve_mkl2 s2) \<and>
      wrap_applied (step_mkl2 s2) (evolve_mkl2 s2) \<and>
      n_parts (step_mkl2 s2) = n_parts s2 \<and> len (step_mkl2 s2) = len s2)"
proof (intro conjI impI)
  assume a: "0 < len s \<and> sized s"
  then show "wrapped (evolve_std s)" by (simp add: wrapped_std)
  from a show "sized (evolve_std s)" by (simp add: evolve_std_def enforcePBC_sized step_std_sized)
  from a have "sized (step_std s)" by (simp add: step_std_sized)
  then show "wrap_applied (step_std s) (evolve_std s)"
    unfolding evolve_std_def by (intro enforcePBC_applied) (simp_all add: sized_def)
  from a show "n_parts (step_std s) = n_parts s" "len (step_std s) = len s"
    by (simp_all add: step_fixed)
next
  assume a: "0 < len s1 \<and> sized_mkl1 s1"
  then show "wrapped (evolve_mkl1 s1)" by (simp add: wrapped_mkl1)
  from a have z: "sized_mkl1 (step_mkl1 s1)" by (simp add: step_mkl1_sized)
  then show "sized_mkl1 (evolve_mkl1 s1)"
    using more_mkl1[OF enforcePBC_more[of "step_mkl1 s1"]] enforcePBC_fixed[of "step_mkl1 s1"]
    by (simp add: evolve_mkl1_def sized_mkl1_def enforcePBC_sized)
  from z show "wrap_applied (step_mkl1 s1) (evolve_mkl1 s1)"
    unfolding evolve_mkl1_def by (intro enforcePBC_applied) (simp_all add: sized_mkl1_def sized_def)
  from a show "n_parts (step_mkl1 s1) = n_parts s1" "len (step_mkl1 s1) = len s1"
    by (simp_all add: step_fixed)
next
  assume a: "0 < len s2 \<and> sized_mkl2 s2"
  then show "wrapped (evolve_mkl2 s2)" by (simp add: wrapped_mkl2)
  from a have z: "sized_mkl2 (step_mkl2 s2)" by (simp add: step_mkl2_sized)
  then show "sized_mkl2 (evolve_mkl2 s2)"
    using more_mkl2[OF enforcePBC_more[of "step_mkl2 s2"]] enforcePBC_fixed[of "step_mkl2 s2"]
    by (simp add: evolve_mkl2_def sized_mkl2_def enforcePBC_sized)
  from z show "wrap_applied (step_mkl2 s2) (evolve_mkl2 s2)"
    unfolding evolve_mkl2_def by (intro enforcePBC_applied) (simp_all add: sized_mkl2_def sized_def)
  from a show "n_parts (step_mkl2 s2) = n_parts s2" "len (step_mkl2 s2) = len s2"
    by (simp_all add: step_fixed)
qed

theorem evolve_wrapped_examples:
  "0 < len out_std \<and> sized out_std
   \<and> positions0 (step_std out_std) ! 0 = - (1 / 2) \<and> positions0 (evolve_std out_std) ! 0 = 7 / 2
   \<and> positions1 (step_std out_std) ! 0 = 9 / 2 \<and> positions1 (evolve_std out_std) ! 0 = 1 / 2
   \<and> angles (step_std out_std) ! 0 = - 1 \<and> angles (evolve_std out_std) ! 0 = 2 * pi - 1
   \<and> 0 < len out_mkl1 \<and> sized_mkl1 out_mkl1
   \<and> positions0 (step_mkl1 out_mkl1) ! 0 = - (1 / 2) \<and> positions0 (evolve_mkl1 out_mkl1) ! 0 = 7 / 2
   \<and> positions1 (step_mkl1 out_mkl1) ! 0 = 9 / 2 \<and> positions1 (evolve_mkl1 out_mkl1) ! 0 = 1 / 2
   \<and> angles (step_mkl1 out_mkl1) ! 0 = - 1 \<and> angles (evolve_mkl1 out_mkl1) ! 0 = 2 * pi - 1
   \<and> 0 < len out_mkl2 \<and> sized_mkl2 out_mkl2
   \<and> positions0 (step_mkl2 out_mkl2) ! 0 = - (1 / 2) \<and> positions0 (evolve_mkl2 out_mkl2) ! 0 = 7 / 2
   \<and> positions1 (step_mkl2 out_mkl2) ! 0 = 9 / 2 \<and> positions1 (evolve_mkl2 out_mkl2) ! 0 = 1 / 2
   \<and> angles (step_mkl2 out_mkl2) ! 0 = - 1 \<and> angles (evolve_mkl2 out_mkl2) ! 0 = 2 * pi - 1"
proof -
  have a: "0 < len out_std \<and> sized out_std" by (simp add: out_std_facts)
  have b: "0 < len out_mkl1 \<and> sized_mkl1 out_mkl1" by (simp add: out_mkl1_facts)
  have c: "0 < len out_mkl2 \<and> sized_mkl2 out_mkl2" by (simp add: out_mkl2_facts)
  have l: "len out_std = 4" "len out_mkl1 = 4" "len out_mkl2 = 4"
    by (simp_all add: out_std_def out_mkl1_def out_mkl2_def)
  have w: "wrap_applied (step_std out_std) (evolve_std out_std)
      \<and> n_parts (step_std out_std) = n_parts out_std \<and> len (step_std out_std) = len out_std
      \<and> wrap_applied (step_mkl1 out_mkl1) (evolve_mkl1 out_mkl1)
      \<and> n_parts (step_mkl1 out_mkl1) = n_parts out_mkl1 \<and> len (step_mkl1 out_mkl1) = len out_mkl1
      \<and> wrap_applied (step_mkl2 out_mkl2) (evolve_mkl2 out_mkl2)
      \<and> n_parts (step_mkl2 out_mkl2) = n_parts out_mkl2 \<and> len (step_mkl2 out_mkl2) = len out_mkl2"
    using a b c evolve_wrapped[of out_std out_mkl1 out_mkl2] by blast
  from w have w1: "wrap_applied (step_std out_std) (evolve_std out_std)"
    and n1: "n_parts (step_std out_std) = n_parts out_std"
    and e1: "len (step_std out_std) = len out_std"
    and w2: "wrap_applied (step_mkl1 out_mkl1) (evolve_mkl1 out_mkl1)"
    and n2: "n_parts (step_mkl1 out_mkl1) = n_parts out_mkl1"
    and e2: "len (step_mkl1 out_mkl1) = len out_mkl1"
    and w3: "wrap_applied (step_mkl2 out_mkl2) (evolve_mkl2 out_mkl2)"
    and n3: "n_parts (step_mkl2 out_mkl2) = n_parts out_mkl2"
    and e3: "len (step_mkl2 out_mkl2) = len out_mkl2"
    by blast+
  have n: "0 < n_parts (step_std out_std)" "0 < n_parts (step_mkl1 out_mkl1)"
    "0 < n_parts (step_mkl2 out_mkl2)"
    by (simp_all add: n1 n2 n3 out_std_facts out_mkl1_facts out_mkl2_facts)
  have e: "len (step_std out_std) = 4" "len (step_mkl1 out_mkl1) = 4" "len (step_mkl2 out_mkl2) = 4"
    by (simp_all add: e1 e2 e3 l)
  have x: "positions0 (evolve_std out_std) ! 0 = 7 / 2" "positions1 (evolve_std out_std) ! 0 = 1 / 2"
    "angles (evolve_std out_std) ! 0 = 2 * pi - 1"
    using wrap_appliedD[OF w1 n(1)]
    by (simp_all add: e out_std_step floor_back_turn)
  have y: "positions0 (evolve_mkl1 out_mkl1) ! 0 = 7 / 2" "positions1 (evolve_mkl1 out_mkl1) ! 0 = 1 / 2"
    "angles (evolve_mkl1 out_mkl1) ! 0 = 2 * pi - 1"
    using wrap_appliedD[OF w2 n(2)]
    by (simp_all add: e out_mkl1_step floor_back_turn)
  have z: "positions0 (evolve_mkl2 out_mkl2) ! 0 = 7 / 2" "positions1 (evolve_mkl2 out_mkl2) ! 0 = 1 / 2"
    "angles (evolve_mkl2 out_mkl2) ! 0 = 2 * pi - 1"
    using wrap_appliedD[OF w3 n(3)]
    by (simp_all add: e out_mkl2_step floor_back_turn)
  show ?thesis
    using a b c x y z by (simp add: out_std_step out_mkl1_step out_mkl2_step)
qed

text \<open>
  C5. In \<open>calcInternalForces\<close> a pair \<open>(i, j)\<close> contributes exactly when its minimum-image
  squared distance satisfies \<open>0 < dr2 < 1\<close>; then \<open>(u * dx, u * dy)\<close> with
  \<open>u = k * (1 / sqrt dr2 - 1)\<close> is added to particle \<open>i\<close> (and subtracted from particle \<open>j\<close>);
  when \<open>dr2 = 0\<close> or \<open>dr2 \<ge> 1\<close> the forces are left as they are.
\<close>

theorem pair_step_cutoff:
  assumes "dx = pbcSym (xs ! i - xs ! j) L" and "dy = pbcSym (ys ! i - ys ! j) L"
    and "dr2 = dx * dx + dy * dy" and "u = k * (1 / sqrt dr2 - 1)"
  shows "(0 < dr2 \<and> dr2 < 1 \<longrightarrow>
            pair_step L k xs ys i j (f0, f1) =
              (f0[i := f0 ! i + u * dx, j := f0[i := f0 ! i + u * dx] ! j - u * dx],
               f1[i := f1 ! i + u * dy, j := f1[i := f1 ! i + u * dy] ! j - u * dy]))
         \<and> (0 < dr2 \<and> dr2 < 1 \<and> i \<noteq> j \<and> i < length f0 \<and> i < length f1 \<longrightarrow>
            fst (pair_step L k xs ys i j (f0, f1)) ! i = f0 ! i + u * dx \<and>
            snd (pair_step L k xs ys i j (f0, f1)) ! i = f1 ! i + u * dy)
         \<and> (dr2 = 0 \<or> 1 \<le> dr2 \<longrightarrow> pair_step L k xs ys i j (f0, f1) = (f0, f1))
         \<and> 0 \<le> dr2"
  using assms by (auto simp add: pair_step_def Let_def cutoff_iff)

theorem pair_step_cutoff_examples:
  "pair_step 4 1 [1 / 4, 1 / 2] [1 / 4, 1 / 4] 0 1 ([0, 0], [0, 0]) = ([- (3 / 4), 3 / 4], [0, 0])
   \<and> pair_step 4 1 [1 / 4, 3 / 2] [1 / 4, 1 / 4] 0 1 ([0, 0], [0, 0]) = ([0, 0], [0, 0])"
  using pair_step_cutoff[OF refl refl refl refl, where L = 4 and k = 1 and xs = "[1 / 4, 1 / 2]"
      and ys = "[1 / 4, 1 / 4]" and i = 0 and j = 1 and ?f0.0 = "[0, 0]" and ?f1.0 = "[0, 0]"]
    pair_step_cutoff[OF refl refl refl refl, where L = 4 and k = 1 and xs = "[1 / 4, 3 / 2]"
      and ys = "[1 / 4, 1 / 4]" and i = 0 and j = 1 and ?f0.0 = "[0, 0]" and ?f1.0 = "[0, 0]"]
  by (simp add: pbcSym_def sqrt_sixteenth)

text \<open>
  C6. For every evaluated pair \<open>(i, j)\<close> the change of the force on \<open>j\<close> is the exact negation
  of the change of the force on \<open>i\<close>, and for any configuration the internal forces computed
  by \<open>calcInternalForces\<close> sum to zero in each component.
\<close>

theorem newton_third_law:
  assumes "sized s" and "nbrs_ok (boxes s)" and "i < n_parts s" and "j < n_parts s"
    and "i \<noteq> j" and "lens (n_parts s) F"
  shows "(let F' = pair_step (len s) (pot_strength s) (positions0 s) (positions1 s) i j F
          in fst F' ! j - fst F ! j = - (fst F' ! i - fst F ! i) \<and>
             snd F' ! j - snd F ! j = - (snd F' ! i - snd F ! i))
         \<and> sum_list (forces0 (calcInternalForces s)) = 0
         \<and> sum_list (forces1 (calcInternalForces s)) = 0"
proof -
  have "balanced (n_parts s) (forces0 (calcInternalForces s), forces1 (calcInternalForces s))"
    using assms(1,2) by (intro calc_balanced) (simp_all add: sized_def)
  then have "sum_list (forces0 (calcInternalForces s)) = 0"
    "sum_list (forces1 (calcInternalForces s)) = 0"
    by (simp_all add: balanced_def)
  moreover have "let F' = pair_step (len s) (pot_strength s) (positions0 s) (positions1 s) i j F
          in fst F' ! j - fst F ! j = - (fst F' ! i - fst F ! i) \<and>
             snd F' ! j - snd F ! j = - (snd F' ! i - snd F ! i)"
    using assms(3,4,5,6) by (simp add: pair_step_def Let_def lens_def)
  ultimately show ?thesis by simp
qed

theorem newton_third_law_example:
  "sized two_std \<and> nbrs_ok (boxes two_std) \<and> lens (n_parts two_std) ([0, 0], [0, 0])
   \<and> sum_list (forces0 (calcInternalForces two_std)) = 0
   \<and> sum_list (forces1 (calcInternalForces two_std)) = 0"
proof -
  have h: "sized two_std" "nbrs_ok (boxes two_std)" "0 < n_parts two_std" "1 < n_parts two_std"
    "(0::nat) \<noteq> 1" "lens (n_parts two_std) ([0, 0], [0, 0])"
    by (simp_all add: two_std_sized) (simp_all add: two_std_def nbrs_ok_grid lens_def)
  show ?thesis using newton_third_law[OF h] h by simp
qed

text \<open>
  C7. Claimed: at construction the positions are uniform draws in the box, the stored
  orientations are uniform draws in \<open>[0, 2 * pi)\<close> and the forces are zero, in both
  constructor paths. In the MKL build of the second version of state.cpp the third batch
  of uniform draws is written to \<open>ran_num_angle\<close>; the array \<open>angles\<close> keeps the zeros of
  \<open>resize\<close>. The first version writes the same draws to \<open>angles\<close>.
\<close>

theorem mkl2_constructor_angles:
  "angles (new_State_mkl2 l n k T rot_dif v0 h bx new_stream now) = replicate n 0
   \<and> ran_num_angle (new_State_mkl2 l n k T rot_dif v0 h bx new_stream now) =
       map (\<lambda>i. 2 * pi * variate (new_stream now) (drawn (new_stream now) + n + n + i)) [0..<n]
   \<and> angles (new_State_mkl1 l n k T rot_dif v0 h bx new_stream now) =
       map (\<lambda>i. 2 * pi * variate (new_stream now) (drawn (new_stream now) + n + n + i)) [0..<n]"
  by (simp add: new_State_mkl2_def new_State_mkl1_def vdRngUniform_def Let_def add.assoc)

text \<open>
  C8. Claimed: with \<open>T = 0\<close>, \<open>D_r = 0\<close>, \<open>v0 = 0\<close> and two particles at \<open>dr2 = 1/4\<close> along the
  x-axis, one \<open>evolve\<close> increases their separation and moves each by \<open>dt * k\<close> before the
  wrap. The pair force is \<open>u * dx\<close> with \<open>u = k * (1 / (1/2) - 1) = k\<close> and \<open>\<bar>dx\<bar> = 1/2\<close>, so a
  pair that the loops evaluate once moves each particle by \<open>dt * k / 2\<close>: for the two
  particles of \<open>two_std\<close> the displacement is \<open>1/20\<close> where \<open>dt * k = 1/10\<close>.
\<close>

theorem repulsion_displacement_is_half:
  "repel_setup two_std (- (1 / 2))
   \<and> noiseTemp two_std = (0, sqrt (2 * 0 * dt two_std))
   \<and> noiseAngle two_std = (0, sqrt (2 * 0 * dt two_std))
   \<and> dt two_std * pot_strength two_std = 1 / 10
   \<and> \<bar>positions0 (step_std two_std) ! 0 - positions0 two_std ! 0\<bar> = 1 / 20
   \<and> \<bar>positions0 (step_std two_std) ! 0 - positions0 two_std ! 0\<bar>
        \<noteq> dt two_std * pot_strength two_std"
proof -
  have n: "noiseTemp two_std = (0, sqrt (2 * 0 * dt two_std))"
    "noiseAngle two_std = (0, sqrt (2 * 0 * dt two_std))"
    by (simp_all add: two_std_def)
  have k: "dt two_std * pot_strength two_std = 1 / 10" by (simp add: two_std_def)
  have "repelled two_std (step_std two_std) (- (1 / 2))"
    using two_std_setup n by (rule repel_std)
  then have "\<bar>positions0 (step_std two_std) ! 0 - positions0 two_std ! 0\<bar> = 1 / 20"
    by (simp add: repelled_def Let_def k)
  then show ?thesis using two_std_setup n k by simp
qed

text \<open>
  C8, amended. With \<open>T = 0\<close>, \<open>D_r = 0\<close>, \<open>v0 = 0\<close> and exactly two particles at minimum-image
  squared distance \<open>1/4\<close> along the x-axis, the pair being evaluated once by the cell loops,
  one step moves the two particles, before the wrap, by \<open>dt * k * d\<close> and \<open>- dt * k * d\<close>,
  where \<open>d\<close> is their signed displacement: each by \<open>dt * k / 2\<close> in magnitude, in opposite
  directions, and their separation strictly increases when \<open>dt * k\<close> is positive. This
  holds in the build without MKL and in the two MKL builds.
\<close>

theorem repulsion_step:
  "(repel_setup s d \<and> noiseTemp s = (0, sqrt (2 * 0 * dt s)) \<and>
      noiseAngle s = (0, sqrt (2 * 0 * dt s)) \<longrightarrow> repelled s (step_std s) d)
   \<and> (repel_setup s1 d1 \<and> sized_mkl1 s1 \<and> stddev_temp s1 = sqrt (2 * 0 * dt s1) \<and>
      stddev_rot s1 = sqrt (2 * 0 * dt s1) \<longrightarrow> repelled s1 (step_mkl1 s1) d1)
   \<and> (repel_setup s2 d2 \<and> sized_mkl2 s2 \<and> stddev_temp s2 = sqrt (2 * 0 * dt s2) \<and>
      stddev_rot s2 = sqrt (2 * 0 * dt s2) \<longrightarrow> repelled s2 (step_mkl2 s2) d2)"
  by (simp add: repel_std repel_mkl1 repel_mkl2)

theorem repulsion_step_examples:
  "repel_setup two_std (- (1 / 2)) \<and> noiseTemp two_std = (0, sqrt (2 * 0 * dt two_std))
   \<and> noiseAngle two_std = (0, sqrt (2 * 0 * dt two_std))
   \<and> repelled two_std (step_std two_std) (- (1 / 2))
   \<and> repel_setup two_mkl1 (- (1 / 2)) \<and> sized_mkl1 two_mkl1
   \<and> stddev_temp two_mkl1 = sqrt (2 * 0 * dt two_mkl1)
   \<and> stddev_rot two_mkl1 = sqrt (2 * 0 * dt two_mkl1)
   \<and> repelled two_mkl1 (step_mkl1 two_mkl1) (- (1 / 2))
   \<and> repel_setup two_mkl2 (- (1 / 2)) \<and> sized_mkl2 two_mkl2
   \<and> stddev_temp two_mkl2 = sqrt (2 * 0 * dt two_mkl2)
   \<and> stddev_rot two_mkl2 = sqrt (2 * 0 * dt two_mkl2)
   \<and> repelled two_mkl2 (step_mkl2 two_mkl2) (- (1 / 2))"
proof -
  have a: "repel_setup two_std (- (1 / 2)) \<and> noiseTemp two_std = (0, sqrt (2 * 0 * dt two_std))
      \<and> noiseAngle two_std = (0, sqrt (2 * 0 * dt two_std))"
    by (simp add: two_std_setup) (simp add: two_std_def)
  have b: "repel_setup two_mkl1 (- (1 / 2)) \<and> sized_mkl1 two_mkl1
      \<and> stddev_temp two_mkl1 = sqrt (2 * 0 * dt two_mkl1)
      \<and> stddev_rot two_mkl1 = sqrt (2 * 0 * dt two_mkl1)"
    by (simp add: two_mkl1_setup) (simp add: two_mkl1_def)
  have c: "repel_setup two_mkl2 (- (1 / 2)) \<and> sized_mkl2 two_mkl2
      \<and> stddev_temp two_mkl2 = sqrt (2 * 0 * dt two_mkl2)
      \<and> stddev_rot two_mkl2 = sqrt (2 * 0 * dt two_mkl2)"
    by (simp add: two_mkl2_setup) (simp add: two_mkl2_def)
  show ?thesis
    using a b c
      repulsion_step[of two_std "- (1 / 2)" two_mkl1 "- (1 / 2)" two_mkl2 "- (1 / 2)"]
    by blast
qed

text \<open>
  C10. \<open>notPositive\<close> returns true exactly when its argument is negative; zero is accepted
  and nothing is printed for it. \<open>notStrPositive\<close> returns true exactly when its argument
  is negative or zero, so zero passes the first check and is rejected by the second.
\<close>

theorem notPositive_notStrPositive_flags:
  "fst (notPositive a name) = (a < 0)
   \<and> notPositive (0::'a::{zero,linorder}) name = (False, [])
   \<and> fst (notStrPositive a name) = (a \<le> 0)
   \<and> fst (notStrPositive (0::'a) name)"
  by (simp add: notPositive_def notStrPositive_def)

end
